theory Spec2Isabelle
  imports Complex_Main "HOL-Library.Sublist"
begin

section \<open>Common notions: strings, errors, JavaScript array helpers\<close>

text \<open>
  A JavaScript string is modelled by its UTF-8 encoding, a \<^typ>\<open>string\<close> whose characters
  are the bytes: ASCII text is one character per byte, and a code point beyond ASCII is
  the two to four bytes of its encoding. The string operations of the source
  (concatenation, comparison, the test for the empty string, joining, splitting at a
  comma, trimming) are modelled on this encoding. An exception thrown by the source, or
  a rejected promise, is a value \<open>Inl e\<close> of a sum type.
\<close>

datatype error =
    TypeError string
  | SyntaxError string
  | RequestError string
  | IOError string

definition nl :: string where
  "nl = [CHR 0x0A]"

text \<open>\<^verbatim>\<open>Array.prototype.join\<close> on an array of strings.\<close>

fun join :: "string \<Rightarrow> string list \<Rightarrow> string" where
  "join sep [] = []"
| "join sep [x] = x"
| "join sep (x # y # ys) = x @ sep @ join sep (y # ys)"

section \<open>The diff-to-insertions printer (first module of diffParse.ts)\<close>

text \<open>
  The data that \<^verbatim>\<open>gitdiff-parser\<close> hands to the printer. Only the fields the printer
  reads are kept. The fields \<^verbatim>\<open>type\<close>, \<^verbatim>\<open>content\<close> of a change and \<^verbatim>\<open>changes\<close> of a hunk
  carry a prefix here because the review pipeline below has fields of the same names.
\<close>

datatype ChangeType = Insert | Delete | Normal

record GChange =
  change_type :: ChangeType
  change_content :: string

record GHunk =
  hunk_changes :: "GChange list"

record GFile =
  newPath :: string
  hunks :: "GHunk list"

text \<open>
  Standard output of the printer is the list of the arguments of the \<^verbatim>\<open>console.log\<close>
  calls made so far; \<open>stdout_text\<close> is the text that reaches the stream, every call
  writing its argument and a newline.
\<close>

definition console_log :: "string \<Rightarrow> string list \<Rightarrow> string list" where
  "console_log s out = out @ [s]"

definition stdout_text :: "string list \<Rightarrow> string" where
  "stdout_text out = concat (map (\<lambda>s. s @ nl) out)"

text \<open>The body of the inner \<^verbatim>\<open>file.hunks.forEach\<close> callback (lines 17 to 25).\<close>

definition printHunk :: "GHunk \<Rightarrow> string list \<Rightarrow> string list" where
  "printHunk hunk out =
     (let block = [] @ join nl (map change_content
                    (filter (\<lambda>change. change_type change = Insert) (hunk_changes hunk)))
      in console_log [] (console_log block out))"

text \<open>The body of the outer \<^verbatim>\<open>files.forEach\<close> callback (lines 15 to 27).\<close>

definition printFile :: "GFile \<Rightarrow> string list \<Rightarrow> string list" where
  "printFile file out =
     console_log nl
       (fold printHunk (hunks file)
          (console_log (''+++++++++++ '' @ newPath file @ '' ++++++++++++'') out))"

definition printFiles :: "GFile list \<Rightarrow> string list \<Rightarrow> string list" where
  "printFiles files out = fold printFile files out"

text \<open>
  \<^verbatim>\<open>parseDiff\<close>: the third-party parser is a parameter; when it throws, nothing is
  printed and the exception escapes.
\<close>

definition parseDiff :: "(string \<Rightarrow> error + GFile list) \<Rightarrow> string \<Rightarrow> error + string list" where
  "parseDiff gitDiffParser_parse gitDiffText =
     (case gitDiffParser_parse gitDiffText of
        Inl e \<Rightarrow> Inl e
      | Inr files \<Rightarrow> Inr (printFiles files []))"

text \<open>
  The report of one file as the specification words it: the header line, one block that
  joins the insertions of all hunks of the file, a blank separator line, and the extra
  blank output between files.
\<close>

definition spec_file_report :: "GFile \<Rightarrow> string list" where
  "spec_file_report file =
     [''+++++++++++ '' @ newPath file @ '' ++++++++++++'',
      join nl (map change_content
        (filter (\<lambda>change. change_type change = Insert) (concat (map hunk_changes (hunks file))))),
      [],
      nl]"

text \<open>Two parsed files used as examples below.\<close>

definition two_hunk_file :: GFile where
  "two_hunk_file =
     \<lparr>newPath = ''f'',
      hunks = [\<lparr>hunk_changes = [\<lparr>change_type = Insert, change_content = ''a''\<rparr>]\<rparr>,
               \<lparr>hunk_changes = [\<lparr>change_type = Delete, change_content = ''x''\<rparr>,
                                 \<lparr>change_type = Insert, change_content = ''b''\<rparr>]\<rparr>]\<rparr>"

definition no_insert_file :: GFile where
  "no_insert_file =
     \<lparr>newPath = ''g'',
      hunks = [\<lparr>hunk_changes = [\<lparr>change_type = Delete, change_content = ''x''\<rparr>,
                                 \<lparr>change_type = Normal, change_content = ''y''\<rparr>]\<rparr>]\<rparr>"

section \<open>The review pipeline (second module of diffParse.ts)\<close>

subsection \<open>JavaScript values and string helpers\<close>

text \<open>
  A JavaScript number: a finite value, an infinity or NaN. Only the zero test of
  truthiness is computed on numbers here.
\<close>

datatype js_number = Finite rat | Infinity | MinusInfinity | NaN

text \<open>A value as \<^verbatim>\<open>JSON.parse\<close> returns it.\<close>

datatype json =
    JNull
  | JBool bool
  | JNum js_number
  | JStr string
  | JArr "json list"
  | JObj "(string \<times> json) list"

text \<open>Truthiness of a value, as \<^verbatim>\<open>if (aiResponse)\<close> tests it.\<close>

fun js_truthy :: "json \<Rightarrow> bool" where
  "js_truthy JNull = False"
| "js_truthy (JBool b) = b"
| "js_truthy (JNum n) = (n \<noteq> Finite 0 \<and> n \<noteq> NaN)"
| "js_truthy (JStr s) = (s \<noteq> [])"
| "js_truthy (JArr xs) = True"
| "js_truthy (JObj kvs) = True"

fun is_array :: "json \<Rightarrow> bool" where
  "is_array (JArr xs) = True"
| "is_array v = False"

text \<open>
  Reading the property \<^verbatim>\<open>reviewComment\<close> or \<^verbatim>\<open>lineNumber\<close> of a parsed value: a
  \<^verbatim>\<open>TypeError\<close> on \<^verbatim>\<open>null\<close>, the member of an object, and \<^verbatim>\<open>undefined\<close> (\<open>None\<close>) on
  every other value, none of which has a property of either name.
\<close>

fun get_prop :: "json \<Rightarrow> string \<Rightarrow> error + json option" where
  "get_prop JNull k = Inl (TypeError (''Cannot read properties of null (reading '' @ k @ '')''))"
| "get_prop (JObj kvs) k = Inr (map_of kvs k)"
| "get_prop v k = Inr None"

text \<open>Truthiness of an optional line number (\<^verbatim>\<open>undefined\<close> and \<^verbatim>\<open>0\<close> are falsy).\<close>

fun num_truthy :: "nat option \<Rightarrow> bool" where
  "num_truthy None = False"
| "num_truthy (Some n) = (n \<noteq> 0)"

text \<open>Decimal digits of a natural number, as a template literal renders it.\<close>

definition digit_char :: "nat \<Rightarrow> char" where
  "digit_char d =
     (if d = 0 then CHR ''0'' else if d = 1 then CHR ''1'' else if d = 2 then CHR ''2''
      else if d = 3 then CHR ''3'' else if d = 4 then CHR ''4'' else if d = 5 then CHR ''5''
      else if d = 6 then CHR ''6'' else if d = 7 then CHR ''7'' else if d = 8 then CHR ''8''
      else CHR ''9'')"

fun string_of_nat :: "nat \<Rightarrow> string" where
  "string_of_nat n =
     (if n < 10 then [digit_char n] else string_of_nat (n div 10) @ [digit_char (n mod 10)])"

declare string_of_nat.simps [simp del]

text \<open>What a template literal \<^verbatim>\<open>${x}\<close> renders for an optional string or number.\<close>

fun tmpl_str :: "string option \<Rightarrow> string" where
  "tmpl_str None = ''undefined''"
| "tmpl_str (Some s) = s"

fun tmpl_num :: "nat option \<Rightarrow> string" where
  "tmpl_num None = ''undefined''"
| "tmpl_num (Some n) = string_of_nat n"

text \<open>
  The white space and line terminators that \<^verbatim>\<open>String.prototype.trim\<close> strips, each as the
  bytes of its UTF-8 encoding: tab, vertical tab, form feed, U+FEFF, the space
  separators (space, U+00A0, U+1680, U+2000 to U+200A, U+202F, U+205F, U+3000), line
  feed, carriage return, U+2028 and U+2029.
\<close>

definition white_space_utf8 :: "string list" where
  "white_space_utf8 =
     [[CHR 0x09], [CHR 0x0B], [CHR 0x0C], [CHR 0xEF, CHR 0xBB, CHR 0xBF],
      [CHR 0x20], [CHR 0xC2, CHR 0xA0], [CHR 0xE1, CHR 0x9A, CHR 0x80],
      [CHR 0xE2, CHR 0x80, CHR 0x80], [CHR 0xE2, CHR 0x80, CHR 0x81],
      [CHR 0xE2, CHR 0x80, CHR 0x82], [CHR 0xE2, CHR 0x80, CHR 0x83],
      [CHR 0xE2, CHR 0x80, CHR 0x84], [CHR 0xE2, CHR 0x80, CHR 0x85],
      [CHR 0xE2, CHR 0x80, CHR 0x86], [CHR 0xE2, CHR 0x80, CHR 0x87],
      [CHR 0xE2, CHR 0x80, CHR 0x88], [CHR 0xE2, CHR 0x80, CHR 0x89],
      [CHR 0xE2, CHR 0x80, CHR 0x8A], [CHR 0xE2, CHR 0x80, CHR 0xAF],
      [CHR 0xE2, CHR 0x81, CHR 0x9F], [CHR 0xE3, CHR 0x80, CHR 0x80],
      [CHR 0x0A], [CHR 0x0D], [CHR 0xE2, CHR 0x80, CHR 0xA8], [CHR 0xE2, CHR 0x80, CHR 0xA9]]"

text \<open>
  Stripping from the start of a text, as long as it begins with one of the given byte
  sequences.
\<close>

function strip_start :: "string list \<Rightarrow> string \<Rightarrow> string" where
  "strip_start es s =
     (case find (\<lambda>e. e \<noteq> [] \<and> take (length e) s = e) es of
        None \<Rightarrow> s
      | Some e \<Rightarrow> strip_start es (drop (length e) s))"
  by pat_completeness auto

termination
proof (relation "measure (\<lambda>(es, s). length s)")
  show "wf (measure (\<lambda>(es, s). length s))"
    by simp
next
  fix es :: "string list" and s e :: string
  assume "find (\<lambda>e. e \<noteq> [] \<and> take (length e) s = e) es = Some e"
  then have e: "e \<noteq> []" "take (length e) s = e"
    by (auto simp: find_Some_iff)
  then have "s \<noteq> []"
    by auto
  with e(1) have "length s - length e < length s"
    by (cases s; cases e) auto
  then show "((es, drop (length e) s), (es, s)) \<in> measure (\<lambda>(es, s). length s)"
    by simp
qed

declare strip_start.simps [simp del]

text \<open>
  \<^verbatim>\<open>String.prototype.trimStart\<close>, \<^verbatim>\<open>trimEnd\<close> and \<^verbatim>\<open>trim\<close>. The end of a text is stripped
  on the reversed text, with the byte sequences reversed.
\<close>

definition trimStart :: "string \<Rightarrow> string" where
  "trimStart s = strip_start white_space_utf8 s"

definition trimEnd :: "string \<Rightarrow> string" where
  "trimEnd s = rev (strip_start (map rev white_space_utf8) (rev s))"

definition trim :: "string \<Rightarrow> string" where
  "trim s = trimEnd (trimStart s)"

text \<open>\<^verbatim>\<open>String.prototype.split\<close> with a one-character separator.\<close>

fun split :: "char \<Rightarrow> string \<Rightarrow> string list" where
  "split sep [] = [[]]"
| "split sep (c # cs) =
     (if c = sep then [] # split sep cs
      else (case split sep cs of
              [] \<Rightarrow> [[c]]
            | piece # pieces \<Rightarrow> (c # piece) # pieces))"

subsection \<open>Data of the pipeline\<close>

text \<open>
  The types of \<^verbatim>\<open>parse-diff\<close>: a change is an addition or a deletion, which carry
  \<^verbatim>\<open>ln\<close>, or a context line, which carries \<^verbatim>\<open>ln1\<close> (old version) and \<^verbatim>\<open>ln2\<close> (new
  version). For an addition \<^verbatim>\<open>ln\<close> is the line number in the new version, for a deletion
  the line number in the old version. The members \<^verbatim>\<open>ln\<close>, \<^verbatim>\<open>ln2\<close> and \<^verbatim>\<open>content\<close> of a change
  are the functions \<open>Change_ln\<close>, \<open>Change_ln2\<close> and \<open>Change_content\<close>; a member a change
  lacks reads as \<^verbatim>\<open>undefined\<close> (\<open>None\<close>).
\<close>

datatype Change =
    AddChange nat string
  | DeleteChange nat string
  | NormalChange nat nat string

fun Change_ln :: "Change \<Rightarrow> nat option" where
  "Change_ln (AddChange n c) = Some n"
| "Change_ln (DeleteChange n c) = Some n"
| "Change_ln (NormalChange n1 n2 c) = None"

fun Change_ln2 :: "Change \<Rightarrow> nat option" where
  "Change_ln2 (AddChange n c) = None"
| "Change_ln2 (DeleteChange n c) = None"
| "Change_ln2 (NormalChange n1 n2 c) = Some n2"

fun Change_content :: "Change \<Rightarrow> string" where
  "Change_content (AddChange n c) = c"
| "Change_content (DeleteChange n c) = c"
| "Change_content (NormalChange n1 n2 c) = c"

record Chunk =
  content :: string
  changes :: "Change list"

record File =
  to :: "string option"
  chunks :: "Chunk list"

record PRDetails =
  owner :: string
  repo :: string
  pull_number :: int
  title :: string
  description :: string

text \<open>The event payload, with the members the pipeline reads.\<close>

record Event =
  repository_owner_login :: string
  repository_name :: string
  number :: int
  action :: "string option"
  before :: "string option"
  after :: "string option"

text \<open>The data of the pull request response: \<^verbatim>\<open>data.title\<close> and \<^verbatim>\<open>data.body\<close>.\<close>

record PullData =
  data_title :: "string option"
  data_body :: "string option"

text \<open>
  The completion response: \<^verbatim>\<open>data.choices\<close>, each with an optional message. A response
  with no first choice (an empty or missing array) makes \<^verbatim>\<open>choices[0].message\<close> throw.
\<close>

record Message =
  message_content :: "string option"

record Choice =
  message :: "Message option"

record Completion =
  choices :: "Choice list"

text \<open>A review comment; \<^verbatim>\<open>body\<close> is whatever the model's entry holds, if anything.\<close>

record Comment =
  body :: "json option"
  path :: string
  line :: js_number

record Payload =
  max_tokens :: nat
  messages :: "(string \<times> string) list"

text \<open>The remote calls of the pipeline, with their arguments.\<close>

datatype api_call =
    PullsGet string string int
  | PullsGetDiff string string int
  | CompareCommitsWithBasehead string string string
  | Request string
  | AxiosPost string Payload "(string \<times> string) list" "(string \<times> string) list"
  | CreateReview string string int "Comment list" string

datatype log_entry =
    ConsoleLog "string list"
  | ConsoleError error

text \<open>
  The environment of a run. What a remote call answers may depend on the calls made
  before it (the first argument of each responder) and on the call; \<open>Inl\<close> is a rejected
  request. \<open>event_file\<close> is the result of reading and parsing the event payload, \<open>Inl\<close>
  when reading, parsing or destructuring it throws; \<^verbatim>\<open>getPRDetails\<close> and \<^verbatim>\<open>main\<close> each read
  the file, which does not change during a run. The libraries \<^verbatim>\<open>parse-diff\<close> and
  \<^verbatim>\<open>minimatch\<close> and the built-in \<^verbatim>\<open>JSON.parse\<close> and \<^verbatim>\<open>Number\<close> are parameters.
\<close>

record World =
  OPENAI_API_KEY :: string
  exclude_input :: string
  GITHUB_EVENT_NAME :: "string option"
  event_file :: "error + Event"
  octokit_pulls_get :: "api_call list \<Rightarrow> api_call \<Rightarrow> error + PullData"
  octokit_pulls_get_diff :: "api_call list \<Rightarrow> api_call \<Rightarrow> error + string option"
  octokit_compareCommitsWithBasehead :: "api_call list \<Rightarrow> api_call \<Rightarrow> error + string option"
  octokit_request :: "api_call list \<Rightarrow> api_call \<Rightarrow> error + string option"
  octokit_createReview :: "api_call list \<Rightarrow> api_call \<Rightarrow> error + unit"
  axios_post :: "api_call list \<Rightarrow> api_call \<Rightarrow> error + Completion"
  parse_diff :: "string \<Rightarrow> File list"
  minimatch :: "string \<Rightarrow> string \<Rightarrow> bool"
  JSON_parse :: "string \<Rightarrow> error + json"
  Number :: "json option \<Rightarrow> js_number"

text \<open>The state of a run: the remote calls made and the console entries written.\<close>

record State =
  calls :: "api_call list"
  console :: "log_entry list"

type_synonym 'a io = "State \<Rightarrow> (error + 'a) \<times> State"

definition return :: "'a \<Rightarrow> 'a io" where
  "return x s = (Inr x, s)"

text \<open>Sequencing (\<^verbatim>\<open>await\<close>): an exception of the first step skips the second.\<close>

definition bind :: "'a io \<Rightarrow> ('a \<Rightarrow> 'b io) \<Rightarrow> 'b io" where
  "bind m k s = (case m s of (Inl e, s') \<Rightarrow> (Inl e, s') | (Inr x, s') \<Rightarrow> k x s')"

definition call_api :: "(api_call list \<Rightarrow> api_call \<Rightarrow> error + 'a) \<Rightarrow> api_call \<Rightarrow> 'a io" where
  "call_api respond c s = (respond (calls s) c, s\<lparr>calls := calls s @ [c]\<rparr>)"

definition io_console_log :: "string list \<Rightarrow> unit io" where
  "io_console_log args s = (Inr (), s\<lparr>console := console s @ [ConsoleLog args]\<rparr>)"

definition log_error :: "error \<Rightarrow> State \<Rightarrow> State" where
  "log_error e s = s\<lparr>console := console s @ [ConsoleError e]\<rparr>"

subsection \<open>The functions of the pipeline\<close>

definition apiUrl :: string where
  "apiUrl = ''https://southregiontesting.openai.azure.com/openai/deployments/Test1/chat/completions''"

definition getPRDetails :: "World \<Rightarrow> PRDetails io" where
  "getPRDetails w s =
     (case event_file w of
        Inl e \<Rightarrow> (Inl e, s)
      | Inr ev \<Rightarrow>
          bind (call_api (octokit_pulls_get w)
                  (PullsGet (repository_owner_login ev) (repository_name ev) (number ev)))
            (\<lambda>prResponse. return
               \<lparr>owner = repository_owner_login ev,
                repo = repository_name ev,
                pull_number = number ev,
                title = (case data_title prResponse of None \<Rightarrow> [] | Some t \<Rightarrow> t),
                description = (case data_body prResponse of None \<Rightarrow> [] | Some b \<Rightarrow> b)\<rparr>) s)"

definition getDiff :: "World \<Rightarrow> string \<Rightarrow> string \<Rightarrow> int \<Rightarrow> (string option) io" where
  "getDiff w owner' repo' pull_number' =
     call_api (octokit_pulls_get_diff w) (PullsGetDiff owner' repo' pull_number')"

definition system_prompt :: string where
  \<open>system_prompt =
        ''You are a code analyzer and experienced software developer. Your task is to review pull requests. Instructions:''
      @ nl @ ''- Do not give positive comments or compliments.''
      @ nl @ ''- Provide comments and suggestions ONLY if there is something to improve, otherwise return an empty array.''
      @ nl @ ''- Write the comment in GitHub Markdown format.''
      @ nl @ ''- Use the given description only for the overall context and only comment the code.''
      @ nl @ ''- Check your comment to make sure it is correct.''
      @ nl @ ''- IMPORTANT: Do not make assumptions about what the code is supposed to do, only suggest improvements in syntax, keeping in mind the best practices of Javascript. ''
      @ nl @ ''- DO NOT suggest linting or formatting changes.''
      @ nl @ ''- IMPORTANT: NEVER suggest adding comments to the code.''
      @ nl @ ''- Point out any code smells in the block, but only after you understand exactly what the code does. If unsure, omit any comments about that line.''
      @ nl @ '' ''\<close>

definition format_prompt :: string where
  \<open>format_prompt =
        ''Provide the response in following JSON format:  [{"lineNumber":  <line_number>, "reviewComment": "<review comment>"}]''\<close>

definition createPrompts :: "File \<Rightarrow> Chunk \<Rightarrow> PRDetails \<Rightarrow> string \<times> string \<times> string" where
  \<open>createPrompts file chunk prDetails =
     (system_prompt,
      format_prompt,
      ''Review the following code diff in the file "'' @ tmpl_str (to file)
        @ ''" and take the pull request title and description into account when writing the response.''
      @ nl @ ''Pull request title: '' @ title prDetails
      @ nl @ ''  ''
      @ nl @ ''Pull request description:''
      @ nl @ ''---''
      @ nl @ description prDetails
      @ nl @ ''---''
      @ nl @ ''''
      @ nl @ ''Git diff to review:''
      @ nl @ ''''
      @ nl @ ''```diff''
      @ nl @ content chunk
      @ nl @ join nl (map (\<lambda>c. tmpl_num (if num_truthy (Change_ln c) then Change_ln c else Change_ln2 c)
                                @ '' '' @ Change_content c) (changes chunk))
      @ nl @ ''```''
      @ nl)\<close>

text \<open>The request that \<^verbatim>\<open>getAIResponse\<close> posts for a prompt.\<close>

definition completion_request :: "World \<Rightarrow> string \<times> string \<times> string \<Rightarrow> api_call" where
  "completion_request w prompt =
     AxiosPost apiUrl
       \<lparr>max_tokens = 700,
        messages = [(''system'', fst prompt), (''system'', fst (snd prompt)),
                    (''user'', snd (snd prompt))]\<rparr>
       [(''Content-Type'', ''application/json''), (''api-key'', OPENAI_API_KEY w)]
       [(''api-version'', ''2023-05-15'')]"

text \<open>
  The text handed to \<^verbatim>\<open>JSON.parse\<close> (line 212):
  \<^verbatim>\<open>choices[0].message?.content?.trim() || "[]"\<close>.
\<close>

definition response_text :: "Choice \<Rightarrow> string" where
  "response_text choice =
     (case message choice of
        None \<Rightarrow> ''[]''
      | Some m \<Rightarrow>
          (case message_content m of
             None \<Rightarrow> ''[]''
           | Some t \<Rightarrow> if trim t = [] then ''[]'' else trim t))"

text \<open>
  \<^verbatim>\<open>getAIResponse\<close> never throws: whatever the request or the parsing throws is caught,
  logged, and \<^verbatim>\<open>null\<close> is returned.
\<close>

definition getAIResponse :: "World \<Rightarrow> string \<times> string \<times> string \<Rightarrow> State \<Rightarrow> json \<times> State" where
  "getAIResponse w prompt s =
     (case call_api (axios_post w) (completion_request w prompt) s of
        (Inl e, s') \<Rightarrow> (JNull, log_error e s')
      | (Inr response, s') \<Rightarrow>
          (case choices response of
             [] \<Rightarrow> (JNull, log_error (TypeError ''Cannot read properties of undefined (reading message)'') s')
           | choice # _ \<Rightarrow>
               (case JSON_parse w (response_text choice) of
                  Inl e \<Rightarrow> (JNull, log_error e s')
                | Inr v \<Rightarrow> (v, s'))))"

text \<open>\<^verbatim>\<open>Array.prototype.flatMap\<close> with a callback that may throw.\<close>

fun flatMap :: "('a \<Rightarrow> error + 'b list) \<Rightarrow> 'a list \<Rightarrow> error + 'b list" where
  "flatMap f [] = Inr []"
| "flatMap f (x # xs) =
     (case f x of
        Inl e \<Rightarrow> Inl e
      | Inr ys \<Rightarrow> (case flatMap f xs of Inl e \<Rightarrow> Inl e | Inr zs \<Rightarrow> Inr (ys @ zs)))"

text \<open>The callback of \<^verbatim>\<open>createComment\<close> (lines 229 to 238).\<close>

definition comment_of :: "World \<Rightarrow> File \<Rightarrow> json \<Rightarrow> error + Comment list" where
  "comment_of w file aiResponse =
     (case to file of
        None \<Rightarrow> Inr []
      | Some p \<Rightarrow>
          if p = [] then Inr []
          else (case get_prop aiResponse ''reviewComment'' of
                  Inl e \<Rightarrow> Inl e
                | Inr b \<Rightarrow>
                    (case get_prop aiResponse ''lineNumber'' of
                       Inl e \<Rightarrow> Inl e
                     | Inr l \<Rightarrow> Inr [\<lparr>body = b, path = p, line = Number w l\<rparr>])))"

text \<open>
  \<^verbatim>\<open>createComment\<close>: only an array has \<^verbatim>\<open>flatMap\<close>; on any other value the call throws.
\<close>

definition createComment :: "World \<Rightarrow> File \<Rightarrow> Chunk \<Rightarrow> json \<Rightarrow> error + Comment list" where
  "createComment w file chunk aiResponses =
     (case aiResponses of
        JArr entries \<Rightarrow> flatMap (comment_of w file) entries
      | _ \<Rightarrow> Inl (TypeError ''aiResponses.flatMap is not a function''))"

text \<open>The inner loop of \<^verbatim>\<open>analyzeCode\<close> (lines 102 to 111), over the chunks left.\<close>

fun analyzeChunks ::
  "World \<Rightarrow> File \<Rightarrow> PRDetails \<Rightarrow> Chunk list \<Rightarrow> Comment list \<Rightarrow> (Comment list) io" where
  "analyzeChunks w file prDetails [] comments s = (Inr comments, s)"
| "analyzeChunks w file prDetails (chunk # rest) comments s =
     (let prompts = createPrompts file chunk prDetails in
      case getAIResponse w prompts s of
        (aiResponse, s') \<Rightarrow>
          if js_truthy aiResponse then
            (case createComment w file chunk aiResponse of
               Inl e \<Rightarrow> (Inl e, s')
             | Inr newComments \<Rightarrow> analyzeChunks w file prDetails rest (comments @ newComments) s')
          else analyzeChunks w file prDetails rest comments s')"

text \<open>The outer loop of \<^verbatim>\<open>analyzeCode\<close> (lines 100 to 112), over the files left.\<close>

fun analyzeFiles :: "World \<Rightarrow> PRDetails \<Rightarrow> File list \<Rightarrow> Comment list \<Rightarrow> (Comment list) io" where
  "analyzeFiles w prDetails [] comments s = (Inr comments, s)"
| "analyzeFiles w prDetails (file # rest) comments s =
     (if to file = Some ''/dev/null'' then analyzeFiles w prDetails rest comments s
      else (case analyzeChunks w file prDetails (chunks file) comments s of
              (Inl e, s') \<Rightarrow> (Inl e, s')
            | (Inr comments', s') \<Rightarrow> analyzeFiles w prDetails rest comments' s'))"

definition analyzeCode :: "World \<Rightarrow> File list \<Rightarrow> PRDetails \<Rightarrow> (Comment list) io" where
  "analyzeCode w parsedDiff prDetails = analyzeFiles w prDetails parsedDiff []"

definition createReviewComment ::
  "World \<Rightarrow> string \<Rightarrow> string \<Rightarrow> int \<Rightarrow> Comment list \<Rightarrow> unit io" where
  "createReviewComment w owner' repo' pull_number' comments =
     call_api (octokit_createReview w)
       (CreateReview owner' repo' pull_number' comments ''COMMENT'')"

text \<open>The constants \<^verbatim>\<open>excludePatterns\<close> and \<^verbatim>\<open>filteredDiff\<close> of \<^verbatim>\<open>main\<close> (lines 296 to 305).\<close>

definition excludePatterns :: "World \<Rightarrow> string list" where
  "excludePatterns w = map trim (split (CHR '','') (exclude_input w))"

definition filteredDiff :: "World \<Rightarrow> File list \<Rightarrow> File list" where
  "filteredDiff w parsedDiff =
     filter (\<lambda>file. \<not> list_ex (\<lambda>pattern.
        minimatch w (case to file of None \<Rightarrow> [] | Some p \<Rightarrow> p) pattern) (excludePatterns w))
       parsedDiff"

text \<open>
  \<^verbatim>\<open>main\<close> from line 289 on: what happens to the diff once one of the two supported
  branches has produced it.
\<close>

definition main_rest :: "World \<Rightarrow> PRDetails \<Rightarrow> string option \<Rightarrow> unit io" where
  "main_rest w prDetails diff =
     (case diff of
        None \<Rightarrow> io_console_log [''No diff found'']
      | Some d \<Rightarrow>
          if d = [] then io_console_log [''No diff found'']
          else
            (let parsedDiff = parse_diff w d;
                 filtered = filteredDiff w parsedDiff
             in bind (analyzeCode w filtered prDetails)
                  (\<lambda>comments.
                     if length comments > 0
                     then createReviewComment w (owner prDetails) (repo prDetails)
                            (pull_number prDetails) comments
                     else return ())))"

definition main :: "World \<Rightarrow> unit io" where
  "main w =
     bind (getPRDetails w) (\<lambda>prDetails s.
       case event_file w of
         Inl e \<Rightarrow> (Inl e, s)
       | Inr eventData \<Rightarrow>
           if action eventData = Some ''opened'' then
             bind (getDiff w (owner prDetails) (repo prDetails) (pull_number prDetails))
               (main_rest w prDetails) s
           else if action eventData = Some ''synchronize'' then
             bind (call_api (octokit_compareCommitsWithBasehead w)
                     (CompareCommitsWithBasehead (owner prDetails) (repo prDetails)
                        (tmpl_str (before eventData) @ ''...'' @ tmpl_str (after eventData))))
               (\<lambda>diff_url.
                  case diff_url of
                    None \<Rightarrow> main_rest w prDetails None
                  | Some url \<Rightarrow>
                      if url = [] then main_rest w prDetails None
                      else bind (call_api (octokit_request w) (Request url))
                             (main_rest w prDetails)) s
           else io_console_log [''Unsupported event:'', tmpl_str (GITHUB_EVENT_NAME w)] s)"

definition initial_state :: State where
  "initial_state = \<lparr>calls = [], console = []\<rparr>"

text \<open>
  The module's last statement: \<^verbatim>\<open>main().catch\<close> logs the error and exits with status 1;
  otherwise the process ends with status 0.
\<close>

definition top_level :: "(error + unit) \<times> State \<Rightarrow> nat \<times> State" where
  "top_level r =
     (case r of
        (Inl e, s) \<Rightarrow> (1, log_error e s)
      | (Inr u, s) \<Rightarrow> (0, s))"

definition run :: "World \<Rightarrow> nat \<times> State" where
  "run w = top_level (main w initial_state)"

subsection \<open>Specification-side notions and example inputs\<close>


text \<open>
  White space as the language standard lists it, by code point: the white space
  characters (tab, vertical tab, form feed, the zero width no-break space and the
  space separators) and the line terminators. \<open>utf8\<close> is the UTF-8 encoding of a code
  point.
\<close>

definition byte :: "nat \<Rightarrow> char" where
  "byte n = Char (odd n) (odd (n div 2)) (odd (n div 4)) (odd (n div 8))
                 (odd (n div 16)) (odd (n div 32)) (odd (n div 64)) (odd (n div 128))"

definition utf8 :: "nat \<Rightarrow> string" where
  "utf8 n =
     (if n < 0x80 then [byte n]
      else if n < 0x800 then [byte (0xC0 + n div 0x40), byte (0x80 + n mod 0x40)]
      else if n < 0x10000 then
        [byte (0xE0 + n div 0x1000), byte (0x80 + n div 0x40 mod 0x40),
         byte (0x80 + n mod 0x40)]
      else
        [byte (0xF0 + n div 0x40000), byte (0x80 + n div 0x1000 mod 0x40),
         byte (0x80 + n div 0x40 mod 0x40), byte (0x80 + n mod 0x40)])"

definition WhiteSpace :: "nat list" where
  "WhiteSpace =
     [0x0009, 0x000B, 0x000C, 0xFEFF,
      0x0020, 0x00A0, 0x1680, 0x2000, 0x2001, 0x2002, 0x2003, 0x2004, 0x2005, 0x2006,
      0x2007, 0x2008, 0x2009, 0x200A, 0x202F, 0x205F, 0x3000,
      0x000A, 0x000D, 0x2028, 0x2029]"

text \<open>
  Two tests on a byte of a UTF-8 text: whether it continues a character, and the length
  of the encoding that it starts (for encodings of up to three bytes).
\<close>

definition continuation :: "char \<Rightarrow> bool" where
  "continuation b = (digit7 b \<and> \<not> digit6 b)"

definition encoded_length :: "char \<Rightarrow> nat" where
  "encoded_length b = (if \<not> digit7 b then 1 else if \<not> digit5 b then 2 else 3)"

text \<open>
  \<open>trimmed_of text core\<close>: the text is \<open>core\<close> between a run of white space characters
  before it and one after it, and \<open>core\<close> neither begins nor ends with a white space
  character. This is what trimming a text means.
\<close>

definition trimmed_of :: "string \<Rightarrow> string \<Rightarrow> bool" where
  "trimmed_of text core =
     (\<exists>lead trail.
        set lead \<subseteq> set WhiteSpace \<and> set trail \<subseteq> set WhiteSpace
        \<and> text = concat (map utf8 lead) @ core @ concat (map utf8 trail)
        \<and> (\<forall>c \<in> set WhiteSpace. \<not> prefix (utf8 c) core \<and> \<not> suffix (utf8 c) core))"

text \<open>
  \<open>split_of sep text pieces\<close>: the pieces, joined with the separator, are the text, and
  no piece contains the separator. This is what splitting a text at a separator means.
\<close>

definition split_of :: "char \<Rightarrow> string \<Rightarrow> string list \<Rightarrow> bool" where
  "split_of sep text pieces =
     (pieces \<noteq> [] \<and> join [sep] pieces = text \<and> (\<forall>piece \<in> set pieces. sep \<notin> set piece))"

fun is_review :: "api_call \<Rightarrow> bool" where
  "is_review (CreateReview owner' repo' pull_number' comments event) = True"
| "is_review c = False"

definition example_chunk :: Chunk where
  "example_chunk =
     \<lparr>content = ''@@ -1,2 +1,2 @@'',
      changes = [NormalChange 1 1 '' x'', DeleteChange 2 ''-y'', AddChange 2 ''+z'']\<rparr>"

definition example_file :: File where
  "example_file = \<lparr>to = Some ''a.ts'', chunks = [example_chunk]\<rparr>"

definition deleted_file :: File where
  "deleted_file = \<lparr>to = Some ''/dev/null'', chunks = [example_chunk]\<rparr>"

definition pathless_file :: File where
  "pathless_file = \<lparr>to = None, chunks = [example_chunk]\<rparr>"

definition example_pr :: PRDetails where
  "example_pr =
     \<lparr>owner = ''octo'', repo = ''demo'', pull_number = 7, title = ''T'', description = ''''\<rparr>"

definition example_event :: "string \<Rightarrow> Event" where
  "example_event act =
     \<lparr>repository_owner_login = ''octo'', repository_name = ''demo'', number = 7,
      action = Some act, before = Some ''aaa'', after = Some ''bbb''\<rparr>"

definition example_completion :: "string \<Rightarrow> Completion" where
  "example_completion text =
     \<lparr>choices = [\<lparr>message = Some \<lparr>message_content = Some text\<rparr>\<rparr>]\<rparr>"

text \<open>
  \<^verbatim>\<open>JSON.parse\<close> on the texts the examples use; it rejects every other text, as
  \<^verbatim>\<open>JSON.parse\<close> rejects \<^verbatim>\<open>oops\<close>.
\<close>

definition example_JSON_parse :: "string \<Rightarrow> error + json" where
  \<open>example_JSON_parse text =
     (if text = ''[]'' then Inr (JArr [])
      else if text = ''null'' then Inr JNull
      else if text = ''{}'' then Inr (JObj [])
      else if text = ''[{"lineNumber": 2, "reviewComment": "no"}]''
        then Inr (JArr [JObj [(''lineNumber'', JNum (Finite 2)), (''reviewComment'', JStr ''no'')]])
      else Inl (SyntaxError ''Unexpected token''))\<close>

text \<open>
  A model reply with white space around the array: a space, a line feed and a no-break
  space (U+00A0) before it, a zero width no-break space (U+FEFF) and a line feed after.
\<close>

definition example_reply :: string where
  \<open>example_reply =
     '' '' @ nl @ [CHR 0xC2, CHR 0xA0] @ ''[{"lineNumber": 2, "reviewComment": "no"}]''
     @ [CHR 0xEF, CHR 0xBB, CHR 0xBF] @ nl\<close>

text \<open>
  An exclude input of two patterns, with spaces around the first and a no-break space
  before the second.
\<close>

definition example_exclude :: string where
  "example_exclude = '' a.ts ,'' @ [CHR 0xC2, CHR 0xA0] @ ''b.ts''"

text \<open>The comment that the pipeline makes of that reply for \<open>example_file\<close>.\<close>

definition example_comment :: Comment where
  "example_comment = \<lparr>body = Some (JStr ''no''), path = ''a.ts'', line = Finite 2\<rparr>"

text \<open>\<^verbatim>\<open>Number\<close> on the values the examples use: numbers, \<^verbatim>\<open>undefined\<close>, \<^verbatim>\<open>null\<close>, booleans.\<close>

definition example_Number :: "json option \<Rightarrow> js_number" where
  "example_Number v =
     (case v of
        Some (JNum n) \<Rightarrow> n
      | Some JNull \<Rightarrow> Finite 0
      | Some (JBool b) \<Rightarrow> Finite (if b then 1 else 0)
      | _ \<Rightarrow> NaN)"

text \<open>
  A run environment: the event has the given action, every completion request gets
  the given answer, the diff parses to the given files, and the exclude input is empty.
  Its \<^verbatim>\<open>minimatch\<close> compares literally, as \<^verbatim>\<open>minimatch\<close> does for a pattern without
  glob characters.
\<close>

definition example_world :: "string \<Rightarrow> error + Completion \<Rightarrow> File list \<Rightarrow> World" where
  "example_world act answer files =
     \<lparr>OPENAI_API_KEY = ''key'',
      exclude_input = '''',
      GITHUB_EVENT_NAME = Some ''pull_request'',
      event_file = Inr (example_event act),
      octokit_pulls_get = (\<lambda>history c. Inr \<lparr>data_title = Some ''T'', data_body = None\<rparr>),
      octokit_pulls_get_diff = (\<lambda>history c. Inr (Some ''diff --git'')),
      octokit_compareCommitsWithBasehead = (\<lambda>history c. Inr (Some ''https://diff'')),
      octokit_request = (\<lambda>history c. Inr (Some ''diff --git'')),
      octokit_createReview = (\<lambda>history c. Inr ()),
      axios_post = (\<lambda>history c. answer),
      parse_diff = (\<lambda>d. files),
      minimatch = (\<lambda>p pattern. p = pattern),
      JSON_parse = example_JSON_parse,
      Number = example_Number\<rparr>"

subsection \<open>Closed form of the printer's output\<close>

lemma fold_printHunk:
  "fold printHunk hs out =
     out @ concat (map (\<lambda>h. [join nl (map change_content
              (filter (\<lambda>change. change_type change = Insert) (hunk_changes h))), []]) hs)"
  by (induction hs arbitrary: out) (simp_all add: printHunk_def console_log_def)

lemma printFile_closed:
  "printFile file out =
     out @ [''+++++++++++ '' @ newPath file @ '' ++++++++++++'']
         @ concat (map (\<lambda>h. [join nl (map change_content
              (filter (\<lambda>change. change_type change = Insert) (hunk_changes h))), []]) (hunks file))
         @ [nl]"
  by (simp add: printFile_def fold_printHunk console_log_def)

lemma printFiles_append:
  "printFiles files out = out @ printFiles files []"
proof (induction files arbitrary: out)
  case Nil
  show ?case by (simp add: printFiles_def)
next
  case (Cons f fs)
  have "printFiles (f # fs) out = printFiles fs (printFile f out)"
    by (simp add: printFiles_def)
  also have "\<dots> = printFile f out @ printFiles fs []"
    by (rule Cons.IH)
  also have "\<dots> = out @ printFile f [] @ printFiles fs []"
    by (simp add: printFile_closed)
  also have "printFile f [] @ printFiles fs [] = printFiles fs (printFile f [])"
    by (rule Cons.IH [symmetric])
  finally show ?case by (simp add: printFiles_def)
qed

lemma printFiles_concat:
  "printFiles files [] = concat (map (\<lambda>f. printFile f []) files)"
proof (induction files)
  case Nil
  show ?case by (simp add: printFiles_def)
next
  case (Cons f fs)
  have "printFiles (f # fs) [] = printFiles fs (printFile f [])"
    by (simp add: printFiles_def)
  also have "\<dots> = printFile f [] @ printFiles fs []"
    by (rule printFiles_append)
  finally show ?case by (simp add: Cons.IH)
qed

lemma join_no_inserts:
  "\<forall>c \<in> set cs. change_type c \<noteq> Insert \<Longrightarrow>
     join nl (map change_content (filter (\<lambda>change. change_type change = Insert) cs)) = []"
proof -
  assume "\<forall>c \<in> set cs. change_type c \<noteq> Insert"
  then have "filter (\<lambda>change. change_type change = Insert) cs = []"
    by (simp add: filter_empty_conv)
  then show ?thesis by simp
qed

lemma stdout_blank_hunks:
  "\<forall>h \<in> set hs. \<forall>c \<in> set (hunk_changes h). change_type c \<noteq> Insert \<Longrightarrow>
     stdout_text (concat (map (\<lambda>h. [join nl (map change_content
        (filter (\<lambda>change. change_type change = Insert) (hunk_changes h))), []]) hs))
     = replicate (2 * length hs) (CHR 0x0A)"
  by (induction hs) (simp_all add: stdout_text_def nl_def join_no_inserts)

lemma replicate_header_tail:
  "replicate (m + 3) c = c # replicate m c @ [c, c]"
proof -
  have "replicate (m + 3) c = replicate m c @ replicate 3 c"
    by (rule replicate_add)
  also have "replicate 3 c = [c] @ [c, c]"
    by (simp add: numeral_3_eq_3)
  also have "replicate m c @ [c] @ [c, c] = (replicate m c @ [c]) @ [c, c]"
    by simp
  also have "replicate m c @ [c] = c # replicate m c"
    by (rule replicate_append_same)
  finally show ?thesis by simp
qed

lemma stdout_text_Nil:
  "stdout_text [] = []"
  by (simp add: stdout_text_def)

lemma stdout_text_Cons:
  "stdout_text (x # xs) = x @ nl @ stdout_text xs"
  by (simp add: stdout_text_def)

lemma stdout_text_append:
  "stdout_text (xs @ ys) = stdout_text xs @ stdout_text ys"
  by (simp add: stdout_text_def)

lemma stdout_text_concat:
  "stdout_text (concat xss) = concat (map stdout_text xss)"
  by (induction xss) (simp_all add: stdout_text_append, simp add: stdout_text_def)

lemma stdout_text_blocks:
  "stdout_text (concat (map (\<lambda>h. [b h, []]) hs)) = concat (map (\<lambda>h. b h @ nl @ nl) hs)"
  by (induction hs) (simp_all add: stdout_text_def)

section \<open>Properties of the printer\<close>

text \<open>
  C1, as the code has it. The printer prints one insertion block per hunk, not one per
  file: for every parsed diff the standard output is, file after file, the header line
  naming \<^verbatim>\<open>newPath\<close>, then for each hunk of the file, in order, the newline-join of the
  contents of the hunk's insertions (in their order) followed by a blank line, and after
  the last hunk the two blank lines that \<^verbatim>\<open>console.log("\n")\<close> writes. For a file with
  exactly one hunk this is the report the specification describes.
\<close>

theorem printer_block_per_hunk:
  "stdout_text (printFiles files []) =
     concat (map (\<lambda>file.
        ''+++++++++++ '' @ newPath file @ '' ++++++++++++'' @ nl
        @ concat (map (\<lambda>hunk.
             join nl (map change_content
               (filter (\<lambda>change. change_type change = Insert) (hunk_changes hunk))) @ nl @ nl)
             (hunks file))
        @ nl @ nl) files)
   \<and> printFile (file\<lparr>hunks := [hunk]\<rparr>) [] = spec_file_report (file\<lparr>hunks := [hunk]\<rparr>)"
proof
  have one: "stdout_text (printFile f []) =
        ''+++++++++++ '' @ newPath f @ '' ++++++++++++'' @ nl
        @ concat (map (\<lambda>hunk.
             join nl (map change_content
               (filter (\<lambda>change. change_type change = Insert) (hunk_changes hunk))) @ nl @ nl)
             (hunks f))
        @ nl @ nl" for f
    by (simp add: printFile_closed stdout_text_append stdout_text_Cons stdout_text_Nil
          stdout_text_blocks)
  show "stdout_text (printFiles files []) =
     concat (map (\<lambda>file.
        ''+++++++++++ '' @ newPath file @ '' ++++++++++++'' @ nl
        @ concat (map (\<lambda>hunk.
             join nl (map change_content
               (filter (\<lambda>change. change_type change = Insert) (hunk_changes hunk))) @ nl @ nl)
             (hunks file))
        @ nl @ nl) files)"
    by (simp add: printFiles_concat stdout_text_concat comp_def one)
  show "printFile (file\<lparr>hunks := [hunk]\<rparr>) [] = spec_file_report (file\<lparr>hunks := [hunk]\<rparr>)"
    by (simp add: printFile_closed spec_file_report_def)
qed

text \<open>
  C1 as stated fails on a file with two hunks: the code prints the insertion of each
  hunk in a block of its own, with a blank line between them, where the claim has a
  single block joining both.
\<close>

theorem printer_block_per_file_counterexample:
  "printFile two_hunk_file [] = [''+++++++++++ f ++++++++++++'', ''a'', '''', ''b'', '''', nl]
   \<and> spec_file_report two_hunk_file = [''+++++++++++ f ++++++++++++'', ''a'' @ nl @ ''b'', '''', nl]
   \<and> stdout_text (printFile two_hunk_file []) \<noteq> stdout_text (spec_file_report two_hunk_file)"
  by (simp add: printFile_def printHunk_def console_log_def spec_file_report_def
        two_hunk_file_def stdout_text_def nl_def)

text \<open>
  C8. When no change of any hunk of any file is an insertion, the standard output is,
  for each file, its header followed by newline characters only: the one ending the
  header line, two for each hunk (its empty block and its separator), and two more from
  \<^verbatim>\<open>console.log("\n")\<close>. No content line is printed.
\<close>

theorem printer_no_insertions:
  assumes "\<forall>file \<in> set files. \<forall>hunk \<in> set (hunks file).
             \<forall>change \<in> set (hunk_changes hunk). change_type change \<noteq> Insert"
  shows "stdout_text (printFiles files []) =
           concat (map (\<lambda>file. ''+++++++++++ '' @ newPath file @ '' ++++++++++++''
                      @ replicate (2 * length (hunks file) + 3) (CHR 0x0A)) files)"
proof -
  have one: "stdout_text (printFile f []) =
      ''+++++++++++ '' @ newPath f @ '' ++++++++++++''
        @ replicate (2 * length (hunks f) + 3) (CHR 0x0A)" if "f \<in> set files" for f
  proof -
    from assms that
    have "\<forall>h \<in> set (hunks f). \<forall>c \<in> set (hunk_changes h). change_type c \<noteq> Insert"
      by blast
    then have "stdout_text (concat (map (\<lambda>h. [join nl (map change_content
        (filter (\<lambda>change. change_type change = Insert) (hunk_changes h))), []]) (hunks f)))
      = replicate (2 * length (hunks f)) (CHR 0x0A)"
      by (rule stdout_blank_hunks)
    then show ?thesis
      by (simp add: printFile_closed stdout_text_append stdout_text_Cons stdout_text_Nil
            replicate_header_tail nl_def)
  qed
  have "stdout_text (printFiles files []) = concat (map (\<lambda>f. stdout_text (printFile f [])) files)"
    by (simp add: printFiles_concat stdout_text_concat comp_def)
  also have "\<dots> = concat (map (\<lambda>file. ''+++++++++++ '' @ newPath file @ '' ++++++++++++''
                      @ replicate (2 * length (hunks file) + 3) (CHR 0x0A)) files)"
    using one by (simp cong: map_cong)
  finally show ?thesis .
qed

theorem printer_no_insertions_witness:
  "stdout_text (printFiles [no_insert_file] []) =
     ''+++++++++++ g ++++++++++++'' @ replicate 5 (CHR 0x0A)"
  using printer_no_insertions [of "[no_insert_file]"]
  by (simp add: no_insert_file_def)

section \<open>Properties of trimming and splitting\<close>

lemma white_space_utf8_eq: "white_space_utf8 = map utf8 WhiteSpace"
  by (simp add: white_space_utf8_def WhiteSpace_def utf8_def byte_def)

lemmas trim_eval = trim_def trimStart_def trimEnd_def strip_start.simps white_space_utf8_def

lemma utf8_nonempty:
  "utf8 c \<noteq> []"
  by (simp add: utf8_def)

lemma strip_start_decomposition:
  "\<exists>lead. set lead \<subseteq> set es \<and> s = concat lead @ strip_start es s"
proof (induction es s rule: strip_start.induct)
  case (1 es s)
  show ?case
  proof (cases "find (\<lambda>e. e \<noteq> [] \<and> take (length e) s = e) es")
    case None
    then have "strip_start es s = s"
      by (simp add: strip_start.simps [of es s])
    then have "set [] \<subseteq> set es \<and> s = concat [] @ strip_start es s"
      by simp
    then show ?thesis
      by (rule exI)
  next
    case (Some e)
    then have e: "e \<in> set es" "take (length e) s = e"
      by (auto simp: find_Some_iff)
    from Some have step: "strip_start es s = strip_start es (drop (length e) s)"
      by (simp add: strip_start.simps [of es s])
    from "1.IH" [OF Some] obtain lead where
      lead: "set lead \<subseteq> set es"
        "drop (length e) s = concat lead @ strip_start es (drop (length e) s)"
      by (elim exE conjE)
    have "s = take (length e) s @ drop (length e) s"
      by simp
    also have "\<dots> = e @ concat lead @ strip_start es (drop (length e) s)"
      using e(2) lead(2) by simp
    finally have "s = concat (e # lead) @ strip_start es s"
      by (simp add: step)
    moreover have "set (e # lead) \<subseteq> set es"
      using e(1) lead(1) by simp
    ultimately have "set (e # lead) \<subseteq> set es \<and> s = concat (e # lead) @ strip_start es s"
      by simp
    then show ?thesis
      by (rule exI)
  qed
qed

lemma strip_start_no_prefix:
  "e \<in> set es \<Longrightarrow> e \<noteq> [] \<Longrightarrow> \<not> prefix e (strip_start es s)"
proof (induction es s rule: strip_start.induct)
  case (1 es s)
  show ?case
  proof (cases "find (\<lambda>e. e \<noteq> [] \<and> take (length e) s = e) es")
    case None
    then have "\<not> (e \<noteq> [] \<and> take (length e) s = e)"
      using "1.prems"(1) by (auto simp: find_None_iff)
    with "1.prems"(2) have "\<not> prefix e s"
      by (auto simp: prefix_def)
    with None show ?thesis
      by (simp add: strip_start.simps [of es s])
  next
    case (Some e')
    then have "strip_start es s = strip_start es (drop (length e') s)"
      by (simp add: strip_start.simps [of es s])
    with "1.IH" [OF Some "1.prems"] show ?thesis
      by simp
  qed
qed

lemma list_of_images:
  "set ys \<subseteq> set (map f xs) \<Longrightarrow> \<exists>zs. set zs \<subseteq> set xs \<and> ys = map f zs"
proof (induction ys)
  case Nil
  have "set [] \<subseteq> set xs \<and> [] = map f []"
    by simp
  then show ?case
    by (rule exI)
next
  case (Cons y ys)
  from Cons.prems have "set ys \<subseteq> set (map f xs)"
    by simp
  from Cons.IH [OF this] obtain zs where zs: "set zs \<subseteq> set xs" "ys = map f zs"
    by (elim exE conjE)
  from Cons.prems have "y \<in> f ` set xs"
    by simp
  then obtain z where z: "y = f z" "z \<in> set xs"
    by (rule imageE)
  have "set (z # zs) \<subseteq> set xs \<and> y # ys = map f (z # zs)"
    using z zs by simp
  then show ?case
    by (rule exI)
qed

lemma trimStart_decomposition:
  "\<exists>lead. set lead \<subseteq> set WhiteSpace \<and> s = concat (map utf8 lead) @ trimStart s"
proof -
  obtain es where es: "set es \<subseteq> set white_space_utf8"
      "s = concat es @ strip_start white_space_utf8 s"
    using strip_start_decomposition [of white_space_utf8 s] by (elim exE conjE)
  from es(1) have "set es \<subseteq> set (map utf8 WhiteSpace)"
    by (simp only: white_space_utf8_eq)
  from list_of_images [OF this] obtain lead where
    lead: "set lead \<subseteq> set WhiteSpace" "es = map utf8 lead"
    by (elim exE conjE)
  have "set lead \<subseteq> set WhiteSpace \<and> s = concat (map utf8 lead) @ trimStart s"
    using es(2) lead by (simp add: trimStart_def)
  then show ?thesis
    by (rule exI)
qed

lemma trimStart_no_prefix:
  "c \<in> set WhiteSpace \<Longrightarrow> \<not> prefix (utf8 c) (trimStart s)"
  unfolding trimStart_def
  by (rule strip_start_no_prefix) (simp_all add: white_space_utf8_eq utf8_nonempty)

lemma trimEnd_decomposition:
  "\<exists>trail. set trail \<subseteq> set WhiteSpace \<and> s = trimEnd s @ concat (map utf8 trail)"
proof -
  obtain es where es: "set es \<subseteq> set (map rev white_space_utf8)"
      "rev s = concat es @ strip_start (map rev white_space_utf8) (rev s)"
    using strip_start_decomposition [of "map rev white_space_utf8" "rev s"]
    by (elim exE conjE)
  have "map rev white_space_utf8 = map (\<lambda>c. rev (utf8 c)) WhiteSpace"
    by (simp add: white_space_utf8_eq)
  with es(1) have "set es \<subseteq> set (map (\<lambda>c. rev (utf8 c)) WhiteSpace)"
    by simp
  from list_of_images [OF this] obtain cs where
    cs: "set cs \<subseteq> set WhiteSpace" "es = map (\<lambda>c. rev (utf8 c)) cs"
    by (elim exE conjE)
  have "s = rev (rev s)"
    by simp
  also have "\<dots> = trimEnd s @ rev (concat es)"
    by (subst es(2)) (simp add: trimEnd_def)
  also have "rev (concat es) = concat (map utf8 (rev cs))"
    by (simp add: cs(2) rev_concat rev_map comp_def)
  finally have "s = trimEnd s @ concat (map utf8 (rev cs))" .
  moreover have "set (rev cs) \<subseteq> set WhiteSpace"
    using cs(1) by simp
  ultimately have "set (rev cs) \<subseteq> set WhiteSpace \<and> s = trimEnd s @ concat (map utf8 (rev cs))"
    by simp
  then show ?thesis
    by (rule exI)
qed

lemma trimEnd_no_suffix:
  "c \<in> set WhiteSpace \<Longrightarrow> \<not> suffix (utf8 c) (trimEnd s)"
proof -
  assume c: "c \<in> set WhiteSpace"
  have "\<not> prefix (rev (utf8 c)) (strip_start (map rev white_space_utf8) (rev s))"
    by (rule strip_start_no_prefix) (use c in \<open>simp_all add: white_space_utf8_eq utf8_nonempty\<close>)
  then show ?thesis
    by (simp add: trimEnd_def suffix_to_prefix)
qed

lemma trim_trimmed:
  "trimmed_of s (trim s)"
proof -
  obtain lead where lead: "set lead \<subseteq> set WhiteSpace"
      "s = concat (map utf8 lead) @ trimStart s"
    using trimStart_decomposition [of s] by (elim exE conjE)
  obtain trail where trail: "set trail \<subseteq> set WhiteSpace"
      "trimStart s = trim s @ concat (map utf8 trail)"
    using trimEnd_decomposition [of "trimStart s"] unfolding trim_def by (elim exE conjE)
  have whole: "s = concat (map utf8 lead) @ trim s @ concat (map utf8 trail)"
    using lead(2) trail(2) by simp
  have "\<not> prefix (utf8 c) (trim s) \<and> \<not> suffix (utf8 c) (trim s)" if c: "c \<in> set WhiteSpace" for c
  proof
    have "prefix (trim s) (trimStart s)"
      using trail(2) by (simp add: prefix_def)
    then show "\<not> prefix (utf8 c) (trim s)"
      using trimStart_no_prefix [OF c, of s] by (auto dest: prefix_order.trans)
    show "\<not> suffix (utf8 c) (trim s)"
      unfolding trim_def using c by (rule trimEnd_no_suffix)
  qed
  then have "set lead \<subseteq> set WhiteSpace \<and> set trail \<subseteq> set WhiteSpace
      \<and> s = concat (map utf8 lead) @ trim s @ concat (map utf8 trail)
      \<and> (\<forall>c \<in> set WhiteSpace. \<not> prefix (utf8 c) (trim s) \<and> \<not> suffix (utf8 c) (trim s))"
    using lead(1) trail(1) whole by simp
  then show ?thesis
    unfolding trimmed_of_def by (intro exI)
qed

lemma white_space_shape:
  "\<forall>e \<in> set white_space_utf8.
     e \<noteq> [] \<and> \<not> continuation (hd e) \<and> (\<forall>b \<in> set (tl e). continuation b)
     \<and> length e = encoded_length (hd e)"
  by (simp add: white_space_utf8_def continuation_def encoded_length_def)

lemma white_space_prefix_free:
  assumes "e \<in> set white_space_utf8" and "e' \<in> set white_space_utf8" and "prefix e e'"
  shows "e = e'"
proof -
  from assms(1,2) white_space_shape have ne: "e \<noteq> []" "e' \<noteq> []"
    and len: "length e = encoded_length (hd e)" "length e' = encoded_length (hd e')"
    by auto
  from assms(3) ne have "hd e = hd e'"
    by (auto simp: prefix_def)
  with len have "length e = length e'"
    by simp
  with assms(3) show ?thesis
    by (auto simp: prefix_def)
qed

lemma white_space_suffix_free:
  assumes "e \<in> set white_space_utf8" and "e' \<in> set white_space_utf8" and "suffix e e'"
  shows "e = e'"
proof -
  from assms(3) obtain zs where zs: "e' = zs @ e"
    by (auto simp: suffix_def)
  from assms(1) white_space_shape have e: "e \<noteq> []" "\<not> continuation (hd e)"
    by auto
  from assms(2) white_space_shape have e': "\<forall>b \<in> set (tl e'). continuation b"
    by auto
  show ?thesis
  proof (cases zs)
    case Nil
    with zs show ?thesis by simp
  next
    case (Cons z zs')
    with zs e(1) have "hd e \<in> set (tl e')"
      by (cases e) auto
    with e' e(2) show ?thesis
      by blast
  qed
qed


lemma strip_start_none:
  "\<forall>e \<in> set es. e \<noteq> [] \<longrightarrow> \<not> prefix e s \<Longrightarrow> strip_start es s = s"
proof -
  assume a: "\<forall>e \<in> set es. e \<noteq> [] \<longrightarrow> \<not> prefix e s"
  have "find (\<lambda>e. e \<noteq> [] \<and> take (length e) s = e) es = None"
    unfolding find_None_iff
  proof (intro notI, elim exE conjE)
    fix e
    assume e: "e \<in> set es" "e \<noteq> []" "take (length e) s = e"
    from e(3) have "prefix e s"
      by (metis take_is_prefix)
    with a e(1,2) show False
      by simp
  qed
  then show ?thesis
    by (simp add: strip_start.simps [of es s])
qed

lemma strip_start_one:
  assumes free: "\<forall>e \<in> set es. \<forall>e' \<in> set es. prefix e e' \<longrightarrow> e = e'"
      and e: "e \<in> set es" "e \<noteq> []"
  shows "strip_start es (e @ y) = strip_start es y"
proof -
  have "find (\<lambda>x. x \<noteq> [] \<and> take (length x) (e @ y) = x) es \<noteq> None"
    unfolding find_None_iff using e by auto
  then obtain x where x: "find (\<lambda>x. x \<noteq> [] \<and> take (length x) (e @ y) = x) es = Some x"
    by (cases "find (\<lambda>x. x \<noteq> [] \<and> take (length x) (e @ y) = x) es") simp_all
  then have xs: "x \<in> set es" "x \<noteq> []" "take (length x) (e @ y) = x"
    by (auto simp: find_Some_iff)
  from xs(3) have "prefix x (e @ y)"
    by (metis take_is_prefix)
  moreover have "prefix e (e @ y)"
    by simp
  ultimately have "prefix x e \<or> prefix e x"
    by (rule prefix_same_cases)
  with free e(1) xs(1) have "x = e"
    by auto
  with x show ?thesis
    by (simp add: strip_start.simps [of es "e @ y"])
qed

lemma strip_start_run:
  assumes free: "\<forall>e \<in> set es. \<forall>e' \<in> set es. prefix e e' \<longrightarrow> e = e'"
      and ne: "\<forall>e \<in> set es. e \<noteq> []"
  shows "set ws \<subseteq> set es \<Longrightarrow> strip_start es (concat ws @ y) = strip_start es y"
proof (induction ws)
  case Nil
  show ?case by simp
next
  case (Cons e ws)
  then have e: "e \<in> set es" "e \<noteq> []" and ws: "set ws \<subseteq> set es"
    using ne by simp_all
  have "strip_start es (concat (e # ws) @ y) = strip_start es (e @ (concat ws @ y))"
    by simp
  also have "\<dots> = strip_start es (concat ws @ y)"
    using free e by (rule strip_start_one)
  also have "\<dots> = strip_start es y"
    using ws by (rule Cons.IH)
  finally show ?case .
qed

lemma white_run_boundary:
  assumes core: "core \<noteq> []" "\<forall>c \<in> set WhiteSpace. \<not> prefix (utf8 c) core"
      and trail: "set trail \<subseteq> set WhiteSpace"
      and e: "e \<in> set white_space_utf8"
  shows "\<not> prefix e (core @ concat (map utf8 trail))"
proof
  assume p: "prefix e (core @ concat (map utf8 trail))"
  from e obtain c where c: "c \<in> set WhiteSpace" "e = utf8 c"
    by (auto simp: white_space_utf8_eq)
  with core(2) have "\<not> prefix e core"
    by simp
  with p obtain us where us: "e = core @ us" "prefix us (concat (map utf8 trail))"
    by (auto simp: prefix_append)
  from us(1) \<open>\<not> prefix e core\<close> have "us \<noteq> []"
    by auto
  from us(2) obtain zs where zs: "concat (map utf8 trail) = us @ zs"
    by (auto simp: prefix_def)
  have rest: "concat (map utf8 trail) \<noteq> []" "hd us = hd (concat (map utf8 trail))"
    unfolding zs using \<open>us \<noteq> []\<close> by simp_all
  from rest(1) obtain t ts where t: "trail = t # ts"
    by (cases trail) auto
  with trail have "utf8 t \<in> set white_space_utf8"
    by (simp add: white_space_utf8_eq)
  with white_space_shape have "\<not> continuation (hd (utf8 t))"
    by blast
  moreover have "hd (concat (map utf8 trail)) = hd (utf8 t)"
    by (simp add: t utf8_nonempty)
  moreover have "hd us \<in> set (tl e)"
    using us(1) core(1) \<open>us \<noteq> []\<close> by (cases core; cases us) auto
  moreover from e white_space_shape have "\<forall>b \<in> set (tl e). continuation b"
    by blast
  ultimately show False
    using rest(2) by auto
qed

lemma trimmed_of_unique:
  assumes "trimmed_of t core"
  shows "core = trim t"
proof -
  from assms obtain lead trail where
    lead: "set lead \<subseteq> set WhiteSpace" and trail: "set trail \<subseteq> set WhiteSpace"
    and t: "t = concat (map utf8 lead) @ core @ concat (map utf8 trail)"
    and edges: "\<forall>c \<in> set WhiteSpace. \<not> prefix (utf8 c) core \<and> \<not> suffix (utf8 c) core"
    unfolding trimmed_of_def by (elim exE conjE)
  have free: "\<forall>e \<in> set white_space_utf8. \<forall>e' \<in> set white_space_utf8. prefix e e' \<longrightarrow> e = e'"
    using white_space_prefix_free by blast
  have ne: "\<forall>e \<in> set white_space_utf8. e \<noteq> []"
    using white_space_shape by blast
  have rfree: "\<forall>e \<in> set (map rev white_space_utf8). \<forall>e' \<in> set (map rev white_space_utf8).
                 prefix e e' \<longrightarrow> e = e'"
  proof (intro ballI impI)
    fix e e'
    assume "e \<in> set (map rev white_space_utf8)" "e' \<in> set (map rev white_space_utf8)"
      and p: "prefix e e'"
    then have "rev e \<in> set white_space_utf8" "rev e' \<in> set white_space_utf8"
      by auto
    moreover from p have "suffix (rev e) (rev e')"
      by (simp add: suffix_to_prefix)
    ultimately have "rev e = rev e'"
      by (rule white_space_suffix_free)
    then show "e = e'"
      by simp
  qed
  have rne: "\<forall>e \<in> set (map rev white_space_utf8). e \<noteq> []"
    using ne by simp
  have lead_run: "set (map utf8 lead) \<subseteq> set white_space_utf8"
    using lead by (auto simp: white_space_utf8_eq)
  have start: "trimStart t = trimStart (core @ concat (map utf8 trail))"
    unfolding trimStart_def t using free ne lead_run by (rule strip_start_run)
  have rev_trail: "rev (concat (map utf8 trail)) = concat (map rev (rev (map utf8 trail)))"
    by (simp add: rev_concat)
  have trail_run: "set (map rev (rev (map utf8 trail))) \<subseteq> set (map rev white_space_utf8)"
    using trail by (auto simp: white_space_utf8_eq)
  have end_core: "trimEnd (core @ concat (map utf8 trail)) = core"
  proof -
    have "strip_start (map rev white_space_utf8) (rev (core @ concat (map utf8 trail)))
            = strip_start (map rev white_space_utf8)
                (concat (map rev (rev (map utf8 trail))) @ rev core)"
      by (simp add: rev_trail)
    also have "\<dots> = strip_start (map rev white_space_utf8) (rev core)"
      using rfree rne trail_run by (rule strip_start_run)
    also have "\<dots> = rev core"
    proof (rule strip_start_none, intro ballI impI)
      fix e
      assume "e \<in> set (map rev white_space_utf8)" "e \<noteq> []"
      then obtain c where c: "c \<in> set WhiteSpace" "e = rev (utf8 c)"
        by (auto simp: white_space_utf8_eq)
      with edges have "\<not> suffix (utf8 c) core"
        by simp
      then show "\<not> prefix e (rev core)"
        by (simp add: c(2) suffix_to_prefix)
    qed
    finally show ?thesis
      by (simp add: trimEnd_def)
  qed
  show ?thesis
  proof (cases "core = []")
    case True
    then have "t = concat (map utf8 (lead @ trail)) @ []"
      by (simp add: t)
    moreover have "set (map utf8 (lead @ trail)) \<subseteq> set white_space_utf8"
      using lead trail by (auto simp: white_space_utf8_eq)
    ultimately have "trimStart t = strip_start white_space_utf8 []"
      unfolding trimStart_def using strip_start_run [OF free ne, of "map utf8 (lead @ trail)" "[]"]
      by simp
    then have "trimStart t = []"
      by (simp add: strip_start.simps [of _ "[]"] find_None_iff [THEN iffD2])
    then have "trim t = []"
      by (simp add: trim_def trimEnd_def strip_start.simps [of _ "[]"] find_None_iff [THEN iffD2])
    with True show ?thesis
      by simp
  next
    case False
    have "trimStart (core @ concat (map utf8 trail)) = core @ concat (map utf8 trail)"
      unfolding trimStart_def
    proof (rule strip_start_none, intro ballI impI)
      fix e
      assume "e \<in> set white_space_utf8" "e \<noteq> []"
      with False edges trail show "\<not> prefix e (core @ concat (map utf8 trail))"
        by (intro white_run_boundary) simp_all
    qed
    with start end_core show ?thesis
      by (simp add: trim_def)
  qed
qed


lemma trimmed_of_iff:
  "trimmed_of t core \<longleftrightarrow> core = trim t"
  using trimmed_of_unique [of t core] trim_trimmed [of t] by auto

lemma list_all2_trimmed:
  "list_all2 trimmed_of pieces patterns \<longleftrightarrow> patterns = map trim pieces"
proof
  show "list_all2 trimmed_of pieces patterns \<Longrightarrow> patterns = map trim pieces"
    by (induction rule: list_all2_induct) (simp_all add: trimmed_of_iff)
  show "patterns = map trim pieces \<Longrightarrow> list_all2 trimmed_of pieces patterns"
    by (simp add: list_all2_map2 list_all2_same trim_trimmed)
qed

lemma split_nonempty:
  "split sep s \<noteq> []"
  by (induction s) (simp_all split: list.splits)

lemma join_split:
  "join [sep] (split sep s) = s"
proof (induction s)
  case Nil
  show ?case by simp
next
  case (Cons c cs)
  obtain piece pieces where p: "split sep cs = piece # pieces"
    using split_nonempty [of sep cs] by (cases "split sep cs") auto
  show ?case
  proof (cases "c = sep")
    case True
    with Cons p show ?thesis by simp
  next
    case False
    with Cons p show ?thesis by (cases pieces) simp_all
  qed
qed

lemma split_no_separator:
  "piece \<in> set (split sep s) \<Longrightarrow> sep \<notin> set piece"
proof (induction s arbitrary: piece)
  case Nil
  then show ?case by simp
next
  case (Cons c cs)
  obtain p ps where p: "split sep cs = p # ps"
    using split_nonempty [of sep cs] by (cases "split sep cs") auto
  show ?case
  proof (cases "c = sep")
    case True
    with Cons show ?thesis by auto
  next
    case False
    with Cons.prems p have "piece = c # p \<or> piece \<in> set ps"
      by simp
    then show ?thesis
      using False Cons.IH p by auto
  qed
qed

lemma split_split_of:
  "split_of sep s (split sep s)"
  by (simp add: split_of_def split_nonempty join_split split_no_separator)

lemma split_piece:
  "sep \<notin> set x \<Longrightarrow> split sep (x @ sep # rest) = x # split sep rest"
  by (induction x) auto

lemma split_single:
  "sep \<notin> set x \<Longrightarrow> split sep x = [x]"
  by (induction x) auto

lemma split_of_unique:
  "split_of sep s pieces \<Longrightarrow> pieces = split sep s"
proof -
  have "pieces \<noteq> [] \<Longrightarrow> \<forall>piece \<in> set pieces. sep \<notin> set piece \<Longrightarrow>
          split sep (join [sep] pieces) = pieces"
  proof (induction "[sep]" pieces rule: join.induct)
    case 1
    then show ?case by simp
  next
    case (2 x)
    then show ?case by (simp add: split_single)
  next
    case (3 x y ys)
    then show ?case by (simp add: split_piece)
  qed
  then show "split_of sep s pieces \<Longrightarrow> pieces = split sep s"
    by (auto simp: split_of_def)
qed

lemma trim_every_white_space:
  "trim (concat (map utf8
           [0x0009, 0x000B, 0x000C, 0xFEFF, 0x0020, 0x00A0, 0x1680, 0x2000, 0x2001, 0x2002,
            0x2003, 0x2004, 0x2005, 0x2006, 0x2007, 0x2008, 0x2009, 0x200A, 0x202F, 0x205F,
            0x3000, 0x000A, 0x000D, 0x2028, 0x2029])
         @ ''a b''
         @ concat (map utf8
           [0x2029, 0x2028, 0x000D, 0x000A, 0x3000, 0x205F, 0x202F, 0x200A, 0x2009, 0x2008,
            0x2007, 0x2006, 0x2005, 0x2004, 0x2003, 0x2002, 0x2001, 0x2000, 0x1680, 0x00A0,
            0x0020, 0xFEFF, 0x000C, 0x000B, 0x0009]))
   = ''a b''"
  by (simp add: utf8_def byte_def trim_eval)

section \<open>Properties of the review pipeline\<close>

subsection \<open>The example environment\<close>

lemma example_event_file:
  "event_file (example_world act answer files) = Inr (example_event act)"
  by (simp add: example_world_def)

lemma example_getPRDetails:
  "getPRDetails (example_world act answer files) initial_state =
     (Inr example_pr, \<lparr>calls = [PullsGet ''octo'' ''demo'' 7], console = []\<rparr>)"
  by (simp add: getPRDetails_def bind_def call_api_def return_def example_world_def
        example_event_def example_pr_def initial_state_def)

lemma example_filteredDiff:
  "filteredDiff (example_world act answer files) [example_file] = [example_file]"
  by (simp add: filteredDiff_def excludePatterns_def trim_eval example_world_def example_file_def)

lemma example_trim_reply:
  \<open>trim example_reply = ''[{"lineNumber": 2, "reviewComment": "no"}]''\<close>
  by (simp add: example_reply_def trim_eval nl_def)

lemma example_getAIResponse:
  "getAIResponse (example_world act (Inr (example_completion example_reply)) files) prompt s =
     (JArr [JObj [(''lineNumber'', JNum (Finite 2)), (''reviewComment'', JStr ''no'')]],
      s\<lparr>calls := calls s
         @ [completion_request (example_world act (Inr (example_completion example_reply)) files)
              prompt]\<rparr>)"
proof -
  have "JSON_parse (example_world act (Inr (example_completion example_reply)) files)
          (response_text \<lparr>message = Some \<lparr>message_content = Some example_reply\<rparr>\<rparr>)
        = Inr (JArr [JObj [(''lineNumber'', JNum (Finite 2)), (''reviewComment'', JStr ''no'')]])"
    by (simp add: response_text_def example_trim_reply)
       (simp add: example_world_def example_JSON_parse_def)
  then show ?thesis
    by (simp add: getAIResponse_def call_api_def)
       (simp add: example_world_def example_completion_def)
qed

lemma example_createComment:
  "createComment (example_world act answer files) example_file chunk
     (JArr [JObj [(''lineNumber'', JNum (Finite 2)), (''reviewComment'', JStr ''no'')]])
   = Inr [example_comment]"
  by (simp add: createComment_def comment_of_def example_file_def example_comment_def
        example_world_def example_Number_def)

lemma example_analyzeCode:
  "analyzeCode (example_world act (Inr (example_completion example_reply)) files)
     [example_file] pr s =
     (Inr [example_comment],
      s\<lparr>calls := calls s
         @ [completion_request (example_world act (Inr (example_completion example_reply)) files)
              (createPrompts example_file example_chunk pr)]\<rparr>)"
proof -
  have k: "to example_file \<noteq> Some ''/dev/null''"
    by (simp add: example_file_def)
  have c: "chunks example_file = [example_chunk]"
    by (simp add: example_file_def)
  show ?thesis
    by (simp add: analyzeCode_def k c example_getAIResponse example_createComment)
qed

subsection \<open>Prompt construction\<close>




subsection \<open>Model invocation\<close>

lemma getAIResponse_calls:
  "calls (snd (getAIResponse w prompt s)) = calls s @ [completion_request w prompt]"
  by (simp add: getAIResponse_def call_api_def log_error_def
        split: sum.splits list.splits)

text \<open>
  C6. When the request succeeds and the response has a first choice, the result of
  the model invocation is \<^verbatim>\<open>JSON.parse\<close> applied to: the text \<^verbatim>\<open>[]\<close> when the message or
  its content is absent, the trimmed content otherwise (and \<^verbatim>\<open>[]\<close> again when
  trimming leaves nothing); a text that does not parse gives \<^verbatim>\<open>null\<close>. The trimmed
  content is the content without the white space characters and line terminators at
  its start and at its end: it is the one text such that the content is a run of them,
  that text, and another run of them, and that neither begins nor ends with one.
\<close>

theorem response_handling:
  assumes "axios_post w (calls s) (completion_request w prompt) = Inr response"
      and "choices response = choice # others"
  shows "fst (getAIResponse w prompt s) =
           (case JSON_parse w
                   (case message choice of
                      None \<Rightarrow> ''[]''
                    | Some m \<Rightarrow>
                        (case message_content m of
                           None \<Rightarrow> ''[]''
                         | Some t \<Rightarrow> if trim t = [] then ''[]'' else trim t)) of
              Inl e \<Rightarrow> JNull
            | Inr v \<Rightarrow> v)
         \<and> (\<forall>m t. message choice = Some m \<and> message_content m = Some t
                \<longrightarrow> (\<forall>core. trimmed_of t core \<longleftrightarrow> core = trim t))"
proof
  show "fst (getAIResponse w prompt s) =
           (case JSON_parse w
                   (case message choice of
                      None \<Rightarrow> ''[]''
                    | Some m \<Rightarrow>
                        (case message_content m of
                           None \<Rightarrow> ''[]''
                         | Some t \<Rightarrow> if trim t = [] then ''[]'' else trim t)) of
              Inl e \<Rightarrow> JNull
            | Inr v \<Rightarrow> v)"
    using assms
    by (simp add: getAIResponse_def call_api_def response_text_def split: sum.splits)
  show "\<forall>m t. message choice = Some m \<and> message_content m = Some t
                \<longrightarrow> (\<forall>core. trimmed_of t core \<longleftrightarrow> core = trim t)"
    by (simp add: trimmed_of_iff)
qed

theorem response_handling_witness:
  \<open>fst (getAIResponse
          (example_world ''opened'' (Inr (example_completion example_reply)) [example_file])
          (createPrompts example_file example_chunk example_pr) initial_state)
     = JArr [JObj [(''lineNumber'', JNum (Finite 2)), (''reviewComment'', JStr ''no'')]]
   \<and> trimmed_of example_reply ''[{"lineNumber": 2, "reviewComment": "no"}]''\<close>
proof -
  let ?w = "example_world ''opened'' (Inr (example_completion example_reply)) [example_file]"
  let ?prompt = "createPrompts example_file example_chunk example_pr"
  let ?choice = "\<lparr>message = Some \<lparr>message_content = Some example_reply\<rparr>\<rparr>"
  have h1: "axios_post ?w (calls initial_state) (completion_request ?w ?prompt)
              = Inr (example_completion example_reply)"
    by (simp add: example_world_def)
  have h2: "choices (example_completion example_reply) = ?choice # []"
    by (simp add: example_completion_def)
  have p: "JSON_parse ?w = example_JSON_parse"
    by (simp add: example_world_def)
  note both = response_handling [OF h1 h2]
  have "fst (getAIResponse ?w ?prompt initial_state)
          = JArr [JObj [(''lineNumber'', JNum (Finite 2)), (''reviewComment'', JStr ''no'')]]"
    using both by (simp add: example_trim_reply p) (simp add: example_JSON_parse_def)
  moreover have "trimmed_of example_reply (trim example_reply)"
    using both by simp
  ultimately show ?thesis
    by (simp add: example_trim_reply)
qed

subsection \<open>The exclude filter\<close>

text \<open>
  C10. The exclude patterns are the pieces of the exclude input between its commas, each
  trimmed: joined with commas the pieces give the input back, no piece contains a comma,
  and each pattern is its piece without the white space at its start and its end; no
  other list of patterns has this property. A
  file is retained exactly when no pattern matches its destination path, the empty
  string standing for a missing path. With an empty exclude input the only pattern is
  the empty string; since \<^verbatim>\<open>minimatch\<close> matches the empty pattern against the empty path
  only, the files retained are then those with a non-empty destination path, and a file
  without a destination path is dropped.
\<close>

theorem exclude_filter:
  assumes "\<forall>p. minimatch w p [] = (p = [])"
  shows "(\<exists>pieces. split_of (CHR '','') (exclude_input w) pieces
            \<and> list_all2 trimmed_of pieces (excludePatterns w))
         \<and> (\<forall>pieces patterns.
              split_of (CHR '','') (exclude_input w) pieces \<and> list_all2 trimmed_of pieces patterns
              \<longrightarrow> patterns = excludePatterns w)
         \<and> filteredDiff w parsedDiff =
             filter (\<lambda>file. \<forall>pattern \<in> set (excludePatterns w).
                       \<not> minimatch w (case to file of None \<Rightarrow> [] | Some p \<Rightarrow> p) pattern)
               parsedDiff
         \<and> (exclude_input w = [] \<longrightarrow>
              excludePatterns w = [[]]
              \<and> filteredDiff w parsedDiff =
                  filter (\<lambda>file. to file \<noteq> None \<and> to file \<noteq> Some []) parsedDiff)"
proof (intro conjI impI allI)
  have "split_of (CHR '','') (exclude_input w) (split (CHR '','') (exclude_input w))
        \<and> list_all2 trimmed_of (split (CHR '','') (exclude_input w)) (excludePatterns w)"
    by (simp add: split_split_of excludePatterns_def list_all2_trimmed)
  then show "\<exists>pieces. split_of (CHR '','') (exclude_input w) pieces
            \<and> list_all2 trimmed_of pieces (excludePatterns w)"
    by (rule exI)
next
  fix pieces patterns
  assume a: "split_of (CHR '','') (exclude_input w) pieces \<and> list_all2 trimmed_of pieces patterns"
  then have "pieces = split (CHR '','') (exclude_input w)"
    by (simp add: split_of_unique)
  moreover from a have "patterns = map trim pieces"
    by (simp add: list_all2_trimmed)
  ultimately show "patterns = excludePatterns w"
    by (simp add: excludePatterns_def)
next
  show "filteredDiff w parsedDiff =
           filter (\<lambda>file. \<forall>pattern \<in> set (excludePatterns w).
                     \<not> minimatch w (case to file of None \<Rightarrow> [] | Some p \<Rightarrow> p) pattern)
             parsedDiff"
    by (simp add: filteredDiff_def list_ex_iff)
next
  assume empty: "exclude_input w = []"
  then show pats: "excludePatterns w = [[]]"
    by (simp add: excludePatterns_def trim_eval)
  have "(\<not> minimatch w (case to f of None \<Rightarrow> [] | Some p \<Rightarrow> p) [])
          = (to f \<noteq> None \<and> to f \<noteq> Some [])" for f :: File
    using assms by (cases "to f") simp_all
  then show "filteredDiff w parsedDiff =
      filter (\<lambda>file. to file \<noteq> None \<and> to file \<noteq> Some []) parsedDiff"
    by (simp add: filteredDiff_def pats)
qed

theorem exclude_filter_witness:
  "excludePatterns
     ((example_world ''opened'' (Inr (example_completion ''[]'')) [])
        \<lparr>exclude_input := example_exclude\<rparr>) = [''a.ts'', ''b.ts'']
   \<and> filteredDiff
       ((example_world ''opened'' (Inr (example_completion ''[]'')) [])
          \<lparr>exclude_input := example_exclude\<rparr>)
       [example_file, pathless_file, deleted_file] = [pathless_file, deleted_file]
   \<and> excludePatterns (example_world ''opened'' (Inr (example_completion ''[]'')) []) = [[]]
   \<and> filteredDiff (example_world ''opened'' (Inr (example_completion ''[]'')) [])
       [example_file, pathless_file, deleted_file] = [example_file, deleted_file]"
proof -
  let ?w = "example_world ''opened'' (Inr (example_completion ''[]'')) []"
  let ?v = "?w\<lparr>exclude_input := example_exclude\<rparr>"
  let ?files = "[example_file, pathless_file, deleted_file]"
  have hw: "\<forall>p. minimatch ?w p [] = (p = [])"
    by (simp add: example_world_def)
  have hv: "\<forall>p. minimatch ?v p [] = (p = [])"
    by (simp add: example_world_def)
  have ew: "exclude_input ?w = []"
    by (simp add: example_world_def)
  have pv: "excludePatterns ?v = [''a.ts'', ''b.ts'']"
    by (simp add: excludePatterns_def example_exclude_def trim_eval)
  have mv: "minimatch ?v = (\<lambda>p pattern. p = pattern)"
    by (simp add: example_world_def)
  have fv: "filteredDiff ?v ?files = [pathless_file, deleted_file]"
    using exclude_filter [OF hv, of ?files]
    by (simp add: pv mv example_file_def pathless_file_def deleted_file_def)
  have "excludePatterns ?w = [[]]
        \<and> filteredDiff ?w ?files = filter (\<lambda>file. to file \<noteq> None \<and> to file \<noteq> Some []) ?files"
    by (rule exclude_filter
          [OF hw, of ?files, THEN conjunct2, THEN conjunct2, THEN conjunct2, THEN mp, OF ew])
  then have fw: "excludePatterns ?w = [[]]
        \<and> filteredDiff ?w ?files = [example_file, deleted_file]"
    by (simp add: example_file_def pathless_file_def deleted_file_def)
  from pv fv fw show ?thesis
    by simp
qed

subsection \<open>The review loops\<close>

lemma analyzeChunks_append:
  "analyzeChunks w file pr (xs @ ys) comments s =
     (case analyzeChunks w file pr xs comments s of
        (Inl e, s') \<Rightarrow> (Inl e, s')
      | (Inr comments', s') \<Rightarrow> analyzeChunks w file pr ys comments' s')"
proof (induction xs arbitrary: comments s)
  case Nil
  show ?case by simp
next
  case (Cons x xs)
  show ?case
    by (simp add: Cons.IH Let_def split: prod.splits sum.splits)
qed

lemma analyzeFiles_append:
  "analyzeFiles w pr (xs @ ys) comments s =
     (case analyzeFiles w pr xs comments s of
        (Inl e, s') \<Rightarrow> (Inl e, s')
      | (Inr comments', s') \<Rightarrow> analyzeFiles w pr ys comments' s')"
proof (induction xs arbitrary: comments s)
  case Nil
  show ?case by simp
next
  case (Cons x xs)
  show ?case
    by (simp add: Cons.IH split: prod.splits sum.splits)
qed

lemma analyzeFiles_filter:
  "analyzeFiles w pr files comments s =
     analyzeFiles w pr (filter (\<lambda>file. to file \<noteq> Some ''/dev/null'') files) comments s"
proof (induction files arbitrary: comments s)
  case Nil
  show ?case by simp
next
  case (Cons f fs)
  show ?case
  proof (cases "to f = Some ''/dev/null''")
    case True
    then show ?thesis by (simp add: Cons.IH [symmetric])
  next
    case False
    then show ?thesis
      by (simp add: Cons.IH [symmetric] split: prod.splits sum.splits)
  qed
qed

lemma flatMap_paths:
  "flatMap (comment_of w file) entries = Inr cs \<Longrightarrow> \<forall>c \<in> set cs. to file = Some (path c)"
proof (induction entries arbitrary: cs)
  case Nil
  then show ?case by simp
next
  case (Cons x xs)
  from Cons.prems obtain ys zs where
    ys: "comment_of w file x = Inr ys" and zs: "flatMap (comment_of w file) xs = Inr zs"
    and cs: "cs = ys @ zs"
    by (auto split: sum.splits)
  from ys have "\<forall>c \<in> set ys. to file = Some (path c)"
    by (auto simp: comment_of_def split: option.splits if_splits sum.splits)
  moreover from zs have "\<forall>c \<in> set zs. to file = Some (path c)"
    by (rule Cons.IH)
  ultimately show ?case
    by (simp add: cs ball_Un)
qed

lemma createComment_paths:
  "createComment w file chunk v = Inr cs \<Longrightarrow> \<forall>c \<in> set cs. to file = Some (path c)"
  by (cases v) (simp_all add: createComment_def flatMap_paths)

lemma analyzeChunks_paths:
  "analyzeChunks w file pr cs comments s = (Inr comments', s') \<Longrightarrow>
   to file \<noteq> Some ''/dev/null'' \<Longrightarrow>
   \<forall>c \<in> set comments. path c \<noteq> ''/dev/null'' \<Longrightarrow>
   \<forall>c \<in> set comments'. path c \<noteq> ''/dev/null''"
proof (induction cs arbitrary: comments s)
  case Nil
  then show ?case by simp
next
  case (Cons x xs)
  obtain v s1 where r: "getAIResponse w (createPrompts file x pr) s = (v, s1)"
    by (cases "getAIResponse w (createPrompts file x pr) s")
  show ?case
  proof (cases "js_truthy v")
    case False
    with Cons.prems(1) r have "analyzeChunks w file pr xs comments s1 = (Inr comments', s')"
      by simp
    then show ?thesis
      using Cons.prems(2,3) by (rule Cons.IH)
  next
    case True
    with Cons.prems(1) r obtain new where
      new: "createComment w file x v = Inr new" and
      rest: "analyzeChunks w file pr xs (comments @ new) s1 = (Inr comments', s')"
      by (auto split: sum.splits)
    from new have "\<forall>c \<in> set new. to file = Some (path c)"
      by (rule createComment_paths)
    with Cons.prems(2) have "\<forall>c \<in> set new. path c \<noteq> ''/dev/null''"
      by auto
    with Cons.prems(3) have "\<forall>c \<in> set (comments @ new). path c \<noteq> ''/dev/null''"
      by auto
    with rest Cons.prems(2) show ?thesis
      by (rule Cons.IH)
  qed
qed

lemma analyzeFiles_paths:
  "analyzeFiles w pr files comments s = (Inr comments', s') \<Longrightarrow>
   \<forall>c \<in> set comments. path c \<noteq> ''/dev/null'' \<Longrightarrow>
   \<forall>c \<in> set comments'. path c \<noteq> ''/dev/null''"
proof (induction files arbitrary: comments s)
  case Nil
  then show ?case by simp
next
  case (Cons f fs)
  show ?case
  proof (cases "to f = Some ''/dev/null''")
    case True
    with Cons.prems(1) have "analyzeFiles w pr fs comments s = (Inr comments', s')"
      by simp
    then show ?thesis
      using Cons.prems(2) by (rule Cons.IH)
  next
    case False
    with Cons.prems(1) obtain mid s1 where
      mid: "analyzeChunks w f pr (chunks f) comments s = (Inr mid, s1)" and
      rest: "analyzeFiles w pr fs mid s1 = (Inr comments', s')"
      by (auto split: prod.splits sum.splits)
    from mid False Cons.prems(2) have "\<forall>c \<in> set mid. path c \<noteq> ''/dev/null''"
      by (rule analyzeChunks_paths)
    with rest show ?thesis
      by (rule Cons.IH)
  qed
qed

text \<open>
  C4. Files whose destination is \<^verbatim>\<open>/dev/null\<close> take no part in the analysis: running
  \<^verbatim>\<open>analyzeCode\<close> on a parsed diff gives the same result, the same comments, the same
  completion requests (hence the same prompts) and the same console entries as running
  it with those files removed, whatever their chunks hold; and no comment that the
  analysis returns has the path \<^verbatim>\<open>/dev/null\<close>.
\<close>

theorem deleted_files_not_processed:
  "analyzeCode w parsedDiff prDetails s =
     analyzeCode w (filter (\<lambda>file. to file \<noteq> Some ''/dev/null'') parsedDiff) prDetails s
   \<and> analyzeCode w (files_before @ file\<lparr>to := Some ''/dev/null''\<rparr> # files_after) prDetails s =
       analyzeCode w (files_before @ files_after) prDetails s
   \<and> (\<forall>comments s'. analyzeCode w parsedDiff prDetails s = (Inr comments, s') \<longrightarrow>
         (\<forall>c \<in> set comments. path c \<noteq> ''/dev/null''))"
proof (intro conjI allI impI)
  show eq: "analyzeCode w parsedDiff prDetails s =
     analyzeCode w (filter (\<lambda>file. to file \<noteq> Some ''/dev/null'') parsedDiff) prDetails s"
    for parsedDiff
    unfolding analyzeCode_def by (rule analyzeFiles_filter)
  have "analyzeCode w (files_before @ file\<lparr>to := Some ''/dev/null''\<rparr> # files_after) prDetails s
      = analyzeCode w (filter (\<lambda>file. to file \<noteq> Some ''/dev/null'')
          (files_before @ file\<lparr>to := Some ''/dev/null''\<rparr> # files_after)) prDetails s"
    by (rule eq)
  also have "\<dots> = analyzeCode w (filter (\<lambda>file. to file \<noteq> Some ''/dev/null'')
          (files_before @ files_after)) prDetails s"
    by simp
  also have "\<dots> = analyzeCode w (files_before @ files_after) prDetails s"
    by (rule eq [symmetric])
  finally show "analyzeCode w (files_before @ file\<lparr>to := Some ''/dev/null''\<rparr> # files_after)
      prDetails s = analyzeCode w (files_before @ files_after) prDetails s" .
next
  fix comments s'
  assume "analyzeCode w parsedDiff prDetails s = (Inr comments, s')"
  then have "analyzeFiles w prDetails parsedDiff [] s = (Inr comments, s')"
    by (simp add: analyzeCode_def)
  then show "\<forall>c \<in> set comments. path c \<noteq> ''/dev/null''"
    by (rule analyzeFiles_paths) simp
qed

theorem deleted_files_not_processed_witness:
  "analyzeCode (example_world ''opened'' (Inr (example_completion example_reply)) [])
     [deleted_file, example_file, deleted_file] example_pr initial_state
   = (Inr [example_comment],
      \<lparr>calls = [completion_request
                  (example_world ''opened'' (Inr (example_completion example_reply)) [])
                  (createPrompts example_file example_chunk example_pr)],
       console = []\<rparr>)
   \<and> analyzeCode (example_world ''opened'' (Inr (example_completion example_reply)) [])
       [deleted_file] example_pr initial_state = (Inr [], initial_state)
   \<and> path example_comment \<noteq> ''/dev/null''"
proof -
  let ?w = "example_world ''opened'' (Inr (example_completion example_reply)) []"
  have f: "filter (\<lambda>file. to file \<noteq> Some ''/dev/null'') [deleted_file, example_file, deleted_file]
             = [example_file]"
    by (simp add: deleted_file_def example_file_def)
  have g: "filter (\<lambda>file. to file \<noteq> Some ''/dev/null'') [deleted_file] = []"
    by (simp add: deleted_file_def)
  note all = deleted_files_not_processed
      [of ?w "[deleted_file, example_file, deleted_file]" example_pr initial_state]
  have a: "analyzeCode ?w [deleted_file, example_file, deleted_file] example_pr initial_state
            = (Inr [example_comment],
               \<lparr>calls = [completion_request ?w (createPrompts example_file example_chunk example_pr)],
                console = []\<rparr>)"
    using all by (simp only: f example_analyzeCode) (simp add: initial_state_def)
  have b: "analyzeCode ?w [deleted_file] example_pr initial_state = (Inr [], initial_state)"
    using deleted_files_not_processed [of ?w "[deleted_file]" example_pr initial_state]
    by (simp only: g) (simp add: analyzeCode_def)
  from all a have "\<forall>c \<in> set [example_comment]. path c \<noteq> ''/dev/null''"
    by blast
  then have c: "path example_comment \<noteq> ''/dev/null''"
    by simp
  from a b c show ?thesis
    by (intro conjI)
qed

subsection \<open>Failures of the model call\<close>

text \<open>
  C3. When the completion request of a hunk is rejected, or the text taken from its
  response does not parse as JSON, \<^verbatim>\<open>getAIResponse\<close> catches the error, logs it and
  returns \<^verbatim>\<open>null\<close>; the loop then goes on with the remaining hunks from a state that
  differs only by that request and that console entry, with the comments collected so
  far unchanged. Nothing is thrown.
\<close>

theorem failed_hunk_is_skipped:
  assumes "axios_post w (calls s) (completion_request w (createPrompts file chunk prDetails)) = Inl e
           \<or> (\<exists>response choice others.
                 axios_post w (calls s) (completion_request w (createPrompts file chunk prDetails))
                   = Inr response
                 \<and> choices response = choice # others
                 \<and> JSON_parse w (response_text choice) = Inl e)"
  shows "getAIResponse w (createPrompts file chunk prDetails) s =
           (JNull, log_error e
              (s\<lparr>calls := calls s @ [completion_request w (createPrompts file chunk prDetails)]\<rparr>))
         \<and> analyzeChunks w file prDetails (chunk # rest) comments s =
             analyzeChunks w file prDetails rest comments
               (log_error e
                  (s\<lparr>calls := calls s @ [completion_request w (createPrompts file chunk prDetails)]\<rparr>))"
proof -
  have r: "getAIResponse w (createPrompts file chunk prDetails) s =
           (JNull, log_error e
              (s\<lparr>calls := calls s @ [completion_request w (createPrompts file chunk prDetails)]\<rparr>))"
    using assms by (auto simp: getAIResponse_def call_api_def)
  then show ?thesis
    by simp
qed

theorem failed_hunk_is_skipped_witness:
  "analyzeChunks (example_world ''opened'' (Inl (RequestError ''timeout'')) []) example_file
      example_pr [example_chunk, example_chunk] [] initial_state
    = (Inr [],
       \<lparr>calls = [completion_request (example_world ''opened'' (Inl (RequestError ''timeout'')) [])
                   (createPrompts example_file example_chunk example_pr),
                 completion_request (example_world ''opened'' (Inl (RequestError ''timeout'')) [])
                   (createPrompts example_file example_chunk example_pr)],
        console = [ConsoleError (RequestError ''timeout''), ConsoleError (RequestError ''timeout'')]\<rparr>)
   \<and> analyzeChunks (example_world ''opened'' (Inr (example_completion ''oops'')) []) example_file
      example_pr [example_chunk] [] initial_state
    = (Inr [],
       \<lparr>calls = [completion_request (example_world ''opened'' (Inr (example_completion ''oops'')) [])
                   (createPrompts example_file example_chunk example_pr)],
        console = [ConsoleError (SyntaxError ''Unexpected token'')]\<rparr>)"
proof -
  let ?w1 = "example_world ''opened'' (Inl (RequestError ''timeout'')) []"
  let ?w2 = "example_world ''opened'' (Inr (example_completion ''oops'')) []"
  let ?p = "createPrompts example_file example_chunk example_pr"
  let ?t1 = "log_error (RequestError ''timeout'')
               (initial_state\<lparr>calls := calls initial_state @ [completion_request ?w1 ?p]\<rparr>)"
  have h1: "axios_post ?w1 (calls s) (completion_request ?w1 ?p)
              = Inl (RequestError ''timeout'')
            \<or> (\<exists>response choice others.
                 axios_post ?w1 (calls s) (completion_request ?w1 ?p) = Inr response
                 \<and> choices response = choice # others
                 \<and> JSON_parse ?w1 (response_text choice) = Inl (RequestError ''timeout''))" for s
    by (simp add: example_world_def)
  have t: "trim ''oops'' = ''oops''"
    by (simp add: trim_eval)
  have "axios_post ?w2 (calls initial_state) (completion_request ?w2 ?p)
           = Inr (example_completion ''oops'')
         \<and> choices (example_completion ''oops'')
             = \<lparr>message = Some \<lparr>message_content = Some ''oops''\<rparr>\<rparr> # []
         \<and> JSON_parse ?w2 (response_text \<lparr>message = Some \<lparr>message_content = Some ''oops''\<rparr>\<rparr>)
             = Inl (SyntaxError ''Unexpected token'')"
    by (simp add: example_world_def example_completion_def response_text_def t
          example_JSON_parse_def)
  then have h2: "axios_post ?w2 (calls initial_state) (completion_request ?w2 ?p)
              = Inl (SyntaxError ''Unexpected token'')
            \<or> (\<exists>response choice others.
                 axios_post ?w2 (calls initial_state) (completion_request ?w2 ?p) = Inr response
                 \<and> choices response = choice # others
                 \<and> JSON_parse ?w2 (response_text choice) = Inl (SyntaxError ''Unexpected token''))"
    by blast
  have a1: "analyzeChunks ?w1 example_file example_pr [example_chunk, example_chunk] [] initial_state
            = analyzeChunks ?w1 example_file example_pr [example_chunk] [] ?t1"
    using failed_hunk_is_skipped [OF h1] by (rule conjunct2)
  have a2: "analyzeChunks ?w1 example_file example_pr [example_chunk] [] ?t1
            = analyzeChunks ?w1 example_file example_pr [] []
                (log_error (RequestError ''timeout'')
                   (?t1\<lparr>calls := calls ?t1 @ [completion_request ?w1 ?p]\<rparr>))"
    using failed_hunk_is_skipped [OF h1] by (rule conjunct2)
  have b: "analyzeChunks ?w2 example_file example_pr [example_chunk] [] initial_state
            = analyzeChunks ?w2 example_file example_pr [] []
                (log_error (SyntaxError ''Unexpected token'')
                   (initial_state\<lparr>calls := calls initial_state @ [completion_request ?w2 ?p]\<rparr>))"
    using failed_hunk_is_skipped [OF h2] by (rule conjunct2)
  show ?thesis
    unfolding a1 a2 b by (simp add: log_error_def initial_state_def)
qed

text \<open>
  C9, as the code has it. When the text taken from a completion response parses to a
  value that is not an array and is truthy (an object, \<^verbatim>\<open>true\<close>, a non-zero number, a
  non-empty string), the catch of \<^verbatim>\<open>getAIResponse\<close> does not fire: the value is returned
  and nothing is logged. \<^verbatim>\<open>createComment\<close> then throws a \<^verbatim>\<open>TypeError\<close>, whichever hunk
  of whichever retained file this is; the remaining hunks and files are not analysed,
  no review is created, and a run that has reached this analysis logs the error and
  exits with status 1.
\<close>

theorem nonarray_reply_aborts_run:
  assumes post: "axios_post w (calls s) (completion_request w (createPrompts file chunk prDetails))
                   = Inr response"
      and first: "choices response = choice # others"
      and parsed: "JSON_parse w (response_text choice) = Inr v"
      and nonarray: "\<not> is_array v"
      and truthy: "js_truthy v"
      and kept: "to file \<noteq> Some ''/dev/null''"
      and hunks: "chunks file = earlier @ chunk # later"
      and files_before: "analyzeFiles w prDetails files_before [] s0 = (Inr comments0, s1)"
      and chunks_before: "analyzeChunks w file prDetails earlier comments0 s1 = (Inr comments, s)"
      and diff: "d \<noteq> []"
      and retained: "filteredDiff w (parse_diff w d) = files_before @ file # files_after"
      and reached: "main w initial_state = main_rest w prDetails (Some d) s0"
  shows "getAIResponse w (createPrompts file chunk prDetails) s =
           (v, s\<lparr>calls := calls s @ [completion_request w (createPrompts file chunk prDetails)]\<rparr>)
         \<and> analyzeCode w (files_before @ file # files_after) prDetails s0 =
             (Inl (TypeError ''aiResponses.flatMap is not a function''),
              s\<lparr>calls := calls s @ [completion_request w (createPrompts file chunk prDetails)]\<rparr>)
         \<and> run w =
             (1, log_error (TypeError ''aiResponses.flatMap is not a function'')
                   (s\<lparr>calls := calls s @ [completion_request w (createPrompts file chunk prDetails)]\<rparr>))"
proof -
  let ?s' = "s\<lparr>calls := calls s @ [completion_request w (createPrompts file chunk prDetails)]\<rparr>"
  let ?e = "TypeError ''aiResponses.flatMap is not a function''"
  have r: "getAIResponse w (createPrompts file chunk prDetails) s = (v, ?s')"
    using post first parsed by (simp add: getAIResponse_def call_api_def)
  have c: "createComment w file chunk v = Inl ?e"
    using nonarray by (cases v) (simp_all add: createComment_def)
  have "analyzeChunks w file prDetails (chunk # later) comments s = (Inl ?e, ?s')"
    using r c truthy by simp
  with chunks_before
  have "analyzeChunks w file prDetails (chunks file) comments0 s1 = (Inl ?e, ?s')"
    by (simp add: hunks analyzeChunks_append)
  with kept have "analyzeFiles w prDetails (file # files_after) comments0 s1 = (Inl ?e, ?s')"
    by simp
  with files_before
  have a: "analyzeCode w (files_before @ file # files_after) prDetails s0 = (Inl ?e, ?s')"
    by (simp add: analyzeCode_def analyzeFiles_append)
  have "main_rest w prDetails (Some d) s0 = (Inl ?e, ?s')"
    using diff a by (simp add: main_rest_def retained bind_def)
  then have "run w = (1, log_error ?e ?s')"
    by (simp add: run_def reached top_level_def)
  with r a show ?thesis
    by simp
qed

theorem nonarray_reply_aborts_run_witness:
  "run (example_world ''opened'' (Inr (example_completion ''{}'')) [example_file, example_file])
     = (1, \<lparr>calls = [PullsGet ''octo'' ''demo'' 7, PullsGetDiff ''octo'' ''demo'' 7,
                     completion_request
                       (example_world ''opened'' (Inr (example_completion ''{}''))
                          [example_file, example_file])
                       (createPrompts example_file example_chunk example_pr)],
            console = [ConsoleError (TypeError ''aiResponses.flatMap is not a function'')]\<rparr>)"
proof -
  let ?w = "example_world ''opened'' (Inr (example_completion ''{}'')) [example_file, example_file]"
  let ?p = "createPrompts example_file example_chunk example_pr"
  let ?s0 = "\<lparr>calls = [PullsGet ''octo'' ''demo'' 7, PullsGetDiff ''octo'' ''demo'' 7],
             console = []\<rparr>"
  have t: "trim ''{}'' = ''{}''"
    by (simp add: trim_eval)
  have post: "axios_post ?w (calls ?s0) (completion_request ?w ?p)
                = Inr (example_completion ''{}'')"
    by (simp add: example_world_def)
  have first: "choices (example_completion ''{}'')
                 = \<lparr>message = Some \<lparr>message_content = Some ''{}''\<rparr>\<rparr> # []"
    by (simp add: example_completion_def)
  have parsed: "JSON_parse ?w (response_text \<lparr>message = Some \<lparr>message_content = Some ''{}''\<rparr>\<rparr>)
                  = Inr (JObj [])"
    by (simp add: example_world_def response_text_def t example_JSON_parse_def)
  have nonarray: "\<not> is_array (JObj [])"
    by simp
  have truthy: "js_truthy (JObj [])"
    by simp
  have kept: "to example_file \<noteq> Some ''/dev/null''"
    by (simp add: example_file_def)
  have hunks: "chunks example_file = [] @ example_chunk # []"
    by (simp add: example_file_def)
  have files_before: "analyzeFiles ?w example_pr [] [] ?s0 = (Inr [], ?s0)"
    by simp
  have chunks_before: "analyzeChunks ?w example_file example_pr [] [] ?s0 = (Inr [], ?s0)"
    by simp
  have diff: "''diff --git'' \<noteq> []"
    by simp
  have retained: "filteredDiff ?w (parse_diff ?w ''diff --git'') = [] @ example_file # [example_file]"
    by (simp add: filteredDiff_def excludePatterns_def trim_eval example_world_def example_file_def)
  have reached: "main ?w initial_state = main_rest ?w example_pr (Some ''diff --git'') ?s0"
    by (simp add: main_def bind_def getPRDetails_def getDiff_def call_api_def return_def
          example_world_def example_event_def example_pr_def initial_state_def)
  show ?thesis
    using nonarray_reply_aborts_run [OF post first parsed nonarray truthy kept hunks
      files_before chunks_before diff retained reached]
    by (simp add: log_error_def)
qed

text \<open>
  C9 as stated fails for a reply that is valid JSON, not an array, and falsy: on the
  reply \<^verbatim>\<open>null\<close> the guard \<^verbatim>\<open>if (aiResponse)\<close> skips \<^verbatim>\<open>createComment\<close>, nothing is thrown
  or logged, and the run ends with status 0.
\<close>

theorem nonarray_reply_counterexample:
  "JSON_parse (example_world ''opened'' (Inr (example_completion ''null'')) [example_file])
       (response_text \<lparr>message = Some \<lparr>message_content = Some ''null''\<rparr>\<rparr>) = Inr JNull
   \<and> \<not> is_array JNull
   \<and> fst (run (example_world ''opened'' (Inr (example_completion ''null'')) [example_file])) = 0
   \<and> console (snd (run (example_world ''opened'' (Inr (example_completion ''null''))
                          [example_file]))) = []"
proof -
  let ?w = "example_world ''opened'' (Inr (example_completion ''null'')) [example_file]"
  have t: "trim ''null'' = ''null''"
    by (simp add: trim_eval)
  have parsed: "JSON_parse ?w (response_text \<lparr>message = Some \<lparr>message_content = Some ''null''\<rparr>\<rparr>)
                  = Inr JNull"
    by (simp add: example_world_def response_text_def t example_JSON_parse_def)
  have r: "getAIResponse ?w prompt s = (JNull, s\<lparr>calls := calls s @ [completion_request ?w prompt]\<rparr>)"
    for prompt s
    using parsed
    by (simp add: getAIResponse_def call_api_def example_world_def example_completion_def)
  have retained: "filteredDiff ?w [example_file] = [example_file]"
    by (simp add: filteredDiff_def excludePatterns_def trim_eval example_world_def example_file_def)
  have a: "analyzeCode ?w [example_file] pr s =
             (Inr [], s\<lparr>calls := calls s @ [completion_request ?w
                                              (createPrompts example_file example_chunk pr)]\<rparr>)"
    for pr s
  proof -
    have k: "to example_file \<noteq> Some ''/dev/null''"
      by (simp add: example_file_def)
    have c: "chunks example_file = [example_chunk]"
      by (simp add: example_file_def)
    show ?thesis
      by (simp add: analyzeCode_def k c r)
  qed
  have p: "parse_diff ?w d = [example_file]" for d
    by (simp add: example_world_def)
  have m: "main_rest ?w pr (Some ''diff --git'') s =
             (Inr (), s\<lparr>calls := calls s @ [completion_request ?w
                                              (createPrompts example_file example_chunk pr)]\<rparr>)"
    for pr s
    by (simp add: main_rest_def p retained a bind_def return_def)
  have reached: "main ?w initial_state =
      main_rest ?w example_pr (Some ''diff --git'')
        \<lparr>calls = [PullsGet ''octo'' ''demo'' 7, PullsGetDiff ''octo'' ''demo'' 7], console = []\<rparr>"
    by (simp add: main_def bind_def getPRDetails_def getDiff_def call_api_def return_def
          example_world_def example_event_def example_pr_def initial_state_def)
  have "main ?w initial_state =
          (Inr (), \<lparr>calls = [PullsGet ''octo'' ''demo'' 7, PullsGetDiff ''octo'' ''demo'' 7,
                     completion_request ?w (createPrompts example_file example_chunk example_pr)],
                   console = []\<rparr>)"
    by (simp add: reached m)
  then have "run ?w =
          (0, \<lparr>calls = [PullsGet ''octo'' ''demo'' 7, PullsGetDiff ''octo'' ''demo'' 7,
                     completion_request ?w (createPrompts example_file example_chunk example_pr)],
                   console = []\<rparr>)"
    by (simp add: run_def top_level_def)
  with parsed show ?thesis
    by simp
qed

subsection \<open>The branches of main\<close>

lemma main_throws:
  "getPRDetails w s0 = (Inl e, s1) \<Longrightarrow> main w s0 = (Inl e, s1)"
  by (simp add: main_def bind_def)

lemma main_opened:
  assumes "getPRDetails w s0 = (Inr pr, s1)" and "event_file w = Inr ev"
      and "action ev = Some ''opened''"
  shows "main w s0 = bind (getDiff w (owner pr) (repo pr) (pull_number pr)) (main_rest w pr) s1"
  using assms by (simp add: main_def bind_def)

lemma main_synchronize:
  assumes "getPRDetails w s0 = (Inr pr, s1)" and "event_file w = Inr ev"
      and "action ev = Some ''synchronize''"
  shows "main w s0 =
           bind (call_api (octokit_compareCommitsWithBasehead w)
                   (CompareCommitsWithBasehead (owner pr) (repo pr)
                      (tmpl_str (before ev) @ ''...'' @ tmpl_str (after ev))))
             (\<lambda>diff_url.
                case diff_url of
                  None \<Rightarrow> main_rest w pr None
                | Some url \<Rightarrow>
                    if url = [] then main_rest w pr None
                    else bind (call_api (octokit_request w) (Request url)) (main_rest w pr)) s1"
  using assms by (simp add: main_def bind_def)

lemma main_unsupported:
  assumes "getPRDetails w s0 = (Inr pr, s1)" and "event_file w = Inr ev"
      and "action ev \<noteq> Some ''opened''" and "action ev \<noteq> Some ''synchronize''"
  shows "main w s0 =
           (Inr (), s1\<lparr>console := console s1
              @ [ConsoleLog [''Unsupported event:'', tmpl_str (GITHUB_EVENT_NAME w)]]\<rparr>)"
  using assms by (simp add: main_def bind_def io_console_log_def)

lemma main_rest_no_diff:
  "diff = None \<or> diff = Some [] \<Longrightarrow>
     main_rest w pr diff s = (Inr (), s\<lparr>console := console s @ [ConsoleLog [''No diff found'']]\<rparr>)"
  by (auto simp: main_rest_def io_console_log_def)

text \<open>
  C2. After the pull request details have been fetched, the action of the event payload
  decides how the diff is obtained. For \<^verbatim>\<open>opened\<close> the next call is the diff-format pull
  request, and its answer is the diff the rest of the pipeline works on. For
  \<^verbatim>\<open>synchronize\<close> the next call is the comparison of \<^verbatim>\<open>before...after\<close>; when it answers
  with a non-empty diff URL that URL is requested next and its answer is the diff the rest
  of the pipeline works on, and when the URL is missing (or empty) the run logs that no
  diff was found and returns with no further call. For any other action the run logs the
  unsupported event and returns normally with no further call, hence no comment.
\<close>

theorem diff_retrieval_by_action:
  assumes "getPRDetails w s0 = (Inr prDetails, s1)" and "event_file w = Inr eventData"
  shows
    "(action eventData = Some ''opened'' \<longrightarrow>
        (\<forall>diff.
           octokit_pulls_get_diff w (calls s1)
             (PullsGetDiff (owner prDetails) (repo prDetails) (pull_number prDetails)) = Inr diff
           \<longrightarrow> main w s0 =
                 main_rest w prDetails diff
                   (s1\<lparr>calls := calls s1
                      @ [PullsGetDiff (owner prDetails) (repo prDetails) (pull_number prDetails)]\<rparr>)))
     \<and> (action eventData = Some ''synchronize'' \<longrightarrow>
        (\<forall>url diff.
           octokit_compareCommitsWithBasehead w (calls s1)
             (CompareCommitsWithBasehead (owner prDetails) (repo prDetails)
                (tmpl_str (before eventData) @ ''...'' @ tmpl_str (after eventData))) = Inr (Some url)
           \<and> url \<noteq> []
           \<and> octokit_request w
               (calls s1 @ [CompareCommitsWithBasehead (owner prDetails) (repo prDetails)
                  (tmpl_str (before eventData) @ ''...'' @ tmpl_str (after eventData))])
               (Request url) = Inr diff
           \<longrightarrow> main w s0 =
                 main_rest w prDetails diff
                   (s1\<lparr>calls := calls s1
                      @ [CompareCommitsWithBasehead (owner prDetails) (repo prDetails)
                           (tmpl_str (before eventData) @ ''...'' @ tmpl_str (after eventData)),
                         Request url]\<rparr>))
        \<and> (\<forall>url.
           octokit_compareCommitsWithBasehead w (calls s1)
             (CompareCommitsWithBasehead (owner prDetails) (repo prDetails)
                (tmpl_str (before eventData) @ ''...'' @ tmpl_str (after eventData))) = Inr url
           \<and> (url = None \<or> url = Some [])
           \<longrightarrow> main w s0 =
                 (Inr (),
                  s1\<lparr>calls := calls s1
                      @ [CompareCommitsWithBasehead (owner prDetails) (repo prDetails)
                           (tmpl_str (before eventData) @ ''...'' @ tmpl_str (after eventData))],
                     console := console s1 @ [ConsoleLog [''No diff found'']]\<rparr>)))
     \<and> (action eventData \<noteq> Some ''opened'' \<and> action eventData \<noteq> Some ''synchronize'' \<longrightarrow>
        main w s0 =
          (Inr (), s1\<lparr>console := console s1
             @ [ConsoleLog [''Unsupported event:'', tmpl_str (GITHUB_EVENT_NAME w)]]\<rparr>))"
proof (intro conjI impI allI)
  fix diff
  assume "action eventData = Some ''opened''"
    and "octokit_pulls_get_diff w (calls s1)
           (PullsGetDiff (owner prDetails) (repo prDetails) (pull_number prDetails)) = Inr diff"
  then show "main w s0 =
      main_rest w prDetails diff
        (s1\<lparr>calls := calls s1
           @ [PullsGetDiff (owner prDetails) (repo prDetails) (pull_number prDetails)]\<rparr>)"
    by (simp add: main_opened [OF assms] bind_def getDiff_def call_api_def)
next
  fix url diff
  let ?cmp = "CompareCommitsWithBasehead (owner prDetails) (repo prDetails)
                (tmpl_str (before eventData) @ ''...'' @ tmpl_str (after eventData))"
  assume "action eventData = Some ''synchronize''"
    and "octokit_compareCommitsWithBasehead w (calls s1) ?cmp = Inr (Some url)
         \<and> url \<noteq> [] \<and> octokit_request w (calls s1 @ [?cmp]) (Request url) = Inr diff"
  then show "main w s0 =
      main_rest w prDetails diff (s1\<lparr>calls := calls s1 @ [?cmp, Request url]\<rparr>)"
    by (simp add: main_synchronize [OF assms] bind_def call_api_def)
next
  fix url
  let ?cmp = "CompareCommitsWithBasehead (owner prDetails) (repo prDetails)
                (tmpl_str (before eventData) @ ''...'' @ tmpl_str (after eventData))"
  assume sync: "action eventData = Some ''synchronize''"
    and url: "octokit_compareCommitsWithBasehead w (calls s1) ?cmp = Inr url
         \<and> (url = None \<or> url = Some [])"
  then have "main w s0 = main_rest w prDetails None (s1\<lparr>calls := calls s1 @ [?cmp]\<rparr>)"
    by (auto simp: main_synchronize [OF assms] bind_def call_api_def)
  then show "main w s0 =
      (Inr (), s1\<lparr>calls := calls s1 @ [?cmp],
                   console := console s1 @ [ConsoleLog [''No diff found'']]\<rparr>)"
    by (simp add: main_rest_no_diff)
next
  assume "action eventData \<noteq> Some ''opened'' \<and> action eventData \<noteq> Some ''synchronize''"
  then show "main w s0 =
      (Inr (), s1\<lparr>console := console s1
         @ [ConsoleLog [''Unsupported event:'', tmpl_str (GITHUB_EVENT_NAME w)]]\<rparr>)"
    by (simp add: main_unsupported [OF assms])
qed

theorem diff_retrieval_by_action_witness:
  "main (example_world ''opened'' (Inr (example_completion ''[]'')) []) initial_state =
     main_rest (example_world ''opened'' (Inr (example_completion ''[]'')) []) example_pr
       (Some ''diff --git'')
       \<lparr>calls = [PullsGet ''octo'' ''demo'' 7, PullsGetDiff ''octo'' ''demo'' 7], console = []\<rparr>
   \<and> main (example_world ''synchronize'' (Inr (example_completion ''[]'')) []) initial_state =
     main_rest (example_world ''synchronize'' (Inr (example_completion ''[]'')) []) example_pr
       (Some ''diff --git'')
       \<lparr>calls = [PullsGet ''octo'' ''demo'' 7,
                 CompareCommitsWithBasehead ''octo'' ''demo'' ''aaa...bbb'',
                 Request ''https://diff''],
        console = []\<rparr>
   \<and> main ((example_world ''synchronize'' (Inr (example_completion ''[]'')) [])
             \<lparr>octokit_compareCommitsWithBasehead := (\<lambda>history c. Inr None)\<rparr>) initial_state =
     (Inr (),
      \<lparr>calls = [PullsGet ''octo'' ''demo'' 7,
                CompareCommitsWithBasehead ''octo'' ''demo'' ''aaa...bbb''],
       console = [ConsoleLog [''No diff found'']]\<rparr>)
   \<and> main (example_world ''closed'' (Inr (example_completion ''[]'')) []) initial_state =
     (Inr (),
      \<lparr>calls = [PullsGet ''octo'' ''demo'' 7],
       console = [ConsoleLog [''Unsupported event:'', ''pull_request'']]\<rparr>)"
proof -
  let ?s1 = "\<lparr>calls = [PullsGet ''octo'' ''demo'' 7], console = []\<rparr>"
  let ?wo = "example_world ''opened'' (Inr (example_completion ''[]'')) []"
  let ?ws = "example_world ''synchronize'' (Inr (example_completion ''[]'')) []"
  let ?wn = "?ws\<lparr>octokit_compareCommitsWithBasehead := (\<lambda>history c. Inr None)\<rparr>"
  let ?wc = "example_world ''closed'' (Inr (example_completion ''[]'')) []"
  have gn: "getPRDetails ?wn initial_state = (Inr example_pr, ?s1)"
    by (simp add: getPRDetails_def bind_def call_api_def return_def example_world_def
          example_event_def example_pr_def initial_state_def)
  have en: "event_file ?wn = Inr (example_event ''synchronize'')"
    by (simp add: example_world_def)
  have opened: "main ?wo initial_state =
     main_rest ?wo example_pr (Some ''diff --git'')
       \<lparr>calls = [PullsGet ''octo'' ''demo'' 7, PullsGetDiff ''octo'' ''demo'' 7], console = []\<rparr>"
    using diff_retrieval_by_action [OF example_getPRDetails example_event_file,
        of "''opened''" "Inr (example_completion ''[]'')" "[]"]
    by (simp add: example_event_def example_pr_def) (simp add: example_world_def)
  have synchronize: "main ?ws initial_state =
     main_rest ?ws example_pr (Some ''diff --git'')
       \<lparr>calls = [PullsGet ''octo'' ''demo'' 7,
                 CompareCommitsWithBasehead ''octo'' ''demo'' ''aaa...bbb'',
                 Request ''https://diff''],
        console = []\<rparr>"
    using diff_retrieval_by_action [OF example_getPRDetails example_event_file,
        of "''synchronize''" "Inr (example_completion ''[]'')" "[]"]
    by (simp add: example_event_def example_pr_def) (simp add: example_world_def)
  have missing: "main ?wn initial_state =
     (Inr (),
      \<lparr>calls = [PullsGet ''octo'' ''demo'' 7,
                CompareCommitsWithBasehead ''octo'' ''demo'' ''aaa...bbb''],
       console = [ConsoleLog [''No diff found'']]\<rparr>)"
    using diff_retrieval_by_action [OF gn en]
    by (simp add: example_event_def example_pr_def)
  have closed: "main ?wc initial_state =
     (Inr (),
      \<lparr>calls = [PullsGet ''octo'' ''demo'' 7],
       console = [ConsoleLog [''Unsupported event:'', ''pull_request'']]\<rparr>)"
    using diff_retrieval_by_action [OF example_getPRDetails example_event_file,
        of "''closed''" "Inr (example_completion ''[]'')" "[]"]
    by (simp add: example_event_def) (simp add: example_world_def)
  from opened synchronize missing closed show ?thesis
    by (intro conjI)
qed

subsection \<open>Publication of the review\<close>

lemma completion_request_no_review:
  "\<not> is_review (completion_request w prompt)"
  by (simp add: completion_request_def)

lemma analyzeChunks_reviews:
  "filter is_review (calls (snd (analyzeChunks w file pr cs comments s)))
     = filter is_review (calls s)"
proof (induction cs arbitrary: comments s)
  case Nil
  show ?case by simp
next
  case (Cons x xs)
  obtain v s1 where r: "getAIResponse w (createPrompts file x pr) s = (v, s1)"
    by (cases "getAIResponse w (createPrompts file x pr) s")
  have "calls s1 = calls s @ [completion_request w (createPrompts file x pr)]"
    using getAIResponse_calls [of w "createPrompts file x pr" s] r by simp
  then have s1: "filter is_review (calls s1) = filter is_review (calls s)"
    by (simp add: completion_request_no_review)
  show ?case
    using r s1 by (simp add: Cons.IH split: sum.splits)
qed

lemma analyzeFiles_reviews:
  "filter is_review (calls (snd (analyzeFiles w pr files comments s)))
     = filter is_review (calls s)"
proof (induction files arbitrary: comments s)
  case Nil
  show ?case by simp
next
  case (Cons f fs)
  show ?case
  proof (cases "to f = Some ''/dev/null''")
    case True
    then show ?thesis by (simp add: Cons.IH)
  next
    case False
    obtain r s1 where a: "analyzeChunks w f pr (chunks f) comments s = (r, s1)"
      by (cases "analyzeChunks w f pr (chunks f) comments s")
    have s1: "filter is_review (calls s1) = filter is_review (calls s)"
      using analyzeChunks_reviews [of w f pr "chunks f" comments s] a by simp
    show ?thesis
      using False a s1 by (cases r) (simp_all add: Cons.IH)
  qed
qed

lemma main_rest_publish:
  assumes "analyzeCode w (filteredDiff w (parse_diff w d)) pr s = (Inr comments, s')"
      and "d \<noteq> []"
  shows "main_rest w pr (Some d) s =
           (if comments = [] then (Inr (), s')
            else (octokit_createReview w (calls s')
                    (CreateReview (owner pr) (repo pr) (pull_number pr) comments ''COMMENT''),
                  s'\<lparr>calls := calls s'
                     @ [CreateReview (owner pr) (repo pr) (pull_number pr) comments ''COMMENT'']\<rparr>))"
  using assms
  by (simp add: main_rest_def bind_def return_def createReviewComment_def call_api_def)

lemma main_rest_reviews:
  "filter is_review (calls (snd (main_rest w pr diff s))) = filter is_review (calls s)
   \<or> (\<exists>comments. comments \<noteq> []
        \<and> filter is_review (calls (snd (main_rest w pr diff s)))
            = filter is_review (calls s)
              @ [CreateReview (owner pr) (repo pr) (pull_number pr) comments ''COMMENT''])"
proof (cases "diff = None \<or> diff = Some []")
  case True
  then show ?thesis by (simp add: main_rest_no_diff)
next
  case False
  then obtain d where d: "diff = Some d" "d \<noteq> []"
    by (cases diff) auto
  obtain r s' where a: "analyzeCode w (filteredDiff w (parse_diff w d)) pr s = (r, s')"
    by (cases "analyzeCode w (filteredDiff w (parse_diff w d)) pr s")
  have s': "filter is_review (calls s') = filter is_review (calls s)"
    using analyzeFiles_reviews [of w pr "filteredDiff w (parse_diff w d)" "[]" s] a
    by (simp add: analyzeCode_def)
  show ?thesis
  proof (cases r)
    case (Inl e)
    with a d have "main_rest w pr diff s = (Inl e, s')"
      by (simp add: main_rest_def bind_def)
    with s' show ?thesis by simp
  next
    case (Inr comments)
    with a d have "main_rest w pr diff s =
           (if comments = [] then (Inr (), s')
            else (octokit_createReview w (calls s')
                    (CreateReview (owner pr) (repo pr) (pull_number pr) comments ''COMMENT''),
                  s'\<lparr>calls := calls s'
                     @ [CreateReview (owner pr) (repo pr) (pull_number pr) comments ''COMMENT'']\<rparr>))"
      by (simp add: main_rest_publish)
    with s' show ?thesis by (cases "comments = []") simp_all
  qed
qed

lemma main_reviews:
  "filter is_review (calls (snd (main w s))) = filter is_review (calls s)
   \<or> (\<exists>owner' repo' pull_number' comments. comments \<noteq> []
        \<and> filter is_review (calls (snd (main w s)))
            = filter is_review (calls s)
              @ [CreateReview owner' repo' pull_number' comments ''COMMENT''])"
proof (cases "getPRDetails w s")
  case (Pair r s1)
  have s1: "filter is_review (calls s1) = filter is_review (calls s)"
    using Pair
    by (auto simp: getPRDetails_def bind_def call_api_def return_def split: sum.splits)
  show ?thesis
  proof (cases r)
    case (Inl e)
    with Pair s1 show ?thesis by (simp add: main_throws)
  next
    case (Inr pr)
    with Pair have g: "getPRDetails w s = (Inr pr, s1)" by simp
    then obtain ev where ev: "event_file w = Inr ev"
      by (cases "event_file w") (simp_all add: getPRDetails_def)
    have rest: "filter is_review (calls (snd (main_rest w pr diff t))) = filter is_review (calls s)
       \<or> (\<exists>owner' repo' pull_number' comments. comments \<noteq> []
            \<and> filter is_review (calls (snd (main_rest w pr diff t)))
                = filter is_review (calls s)
                  @ [CreateReview owner' repo' pull_number' comments ''COMMENT''])"
      if "filter is_review (calls t) = filter is_review (calls s)" for diff t
      using main_rest_reviews [of w pr diff t] that by auto
    consider (opened) "action ev = Some ''opened''"
      | (synchronize) "action ev = Some ''synchronize''"
      | (other) "action ev \<noteq> Some ''opened''" "action ev \<noteq> Some ''synchronize''"
      by blast
    then show ?thesis
    proof cases
      case opened
      let ?c = "PullsGetDiff (owner pr) (repo pr) (pull_number pr)"
      let ?t = "s1\<lparr>calls := calls s1 @ [?c]\<rparr>"
      have t: "filter is_review (calls ?t) = filter is_review (calls s)"
        using s1 by simp
      show ?thesis
      proof (cases "octokit_pulls_get_diff w (calls s1) ?c")
        case (Inl e)
        then have "main w s = (Inl e, ?t)"
          by (simp add: main_opened [OF g ev opened] bind_def getDiff_def call_api_def)
        with t show ?thesis by simp
      next
        case (Inr diff)
        then have "main w s = main_rest w pr diff ?t"
          by (simp add: main_opened [OF g ev opened] bind_def getDiff_def call_api_def)
        with rest [OF t] show ?thesis by simp
      qed
    next
      case synchronize
      let ?c = "CompareCommitsWithBasehead (owner pr) (repo pr)
                  (tmpl_str (before ev) @ ''...'' @ tmpl_str (after ev))"
      let ?t = "s1\<lparr>calls := calls s1 @ [?c]\<rparr>"
      have t: "filter is_review (calls ?t) = filter is_review (calls s)"
        using s1 by simp
      show ?thesis
      proof (cases "octokit_compareCommitsWithBasehead w (calls s1) ?c")
        case (Inl e)
        then have "main w s = (Inl e, ?t)"
          by (simp add: main_synchronize [OF g ev synchronize] bind_def call_api_def)
        with t show ?thesis by simp
      next
        case (Inr url)
        show ?thesis
        proof (cases "url = None \<or> url = Some []")
          case True
          with Inr have "main w s = main_rest w pr None ?t"
            by (auto simp: main_synchronize [OF g ev synchronize] bind_def call_api_def)
          with rest [OF t] show ?thesis by simp
        next
          case False
          then obtain u where u: "url = Some u" "u \<noteq> []"
            by (cases url) auto
          let ?t2 = "s1\<lparr>calls := calls s1 @ [?c, Request u]\<rparr>"
          have t2: "filter is_review (calls ?t2) = filter is_review (calls s)"
            using s1 by simp
          show ?thesis
          proof (cases "octokit_request w (calls s1 @ [?c]) (Request u)")
            case (Inl e)
            with Inr u have "main w s = (Inl e, ?t2)"
              by (simp add: main_synchronize [OF g ev synchronize] bind_def call_api_def)
            with t2 show ?thesis by simp
          next
            case (Inr diff)
            with \<open>octokit_compareCommitsWithBasehead w (calls s1) ?c = Inr url\<close> u
            have "main w s = main_rest w pr diff ?t2"
              by (simp add: main_synchronize [OF g ev synchronize] bind_def call_api_def)
            with rest [OF t2] show ?thesis by simp
          qed
        qed
      qed
    next
      case other
      then have "main w s =
           (Inr (), s1\<lparr>console := console s1
              @ [ConsoleLog [''Unsupported event:'', tmpl_str (GITHUB_EVENT_NAME w)]]\<rparr>)"
        by (rule main_unsupported [OF g ev])
      with s1 show ?thesis by simp
    qed
  qed
qed

text \<open>
  C5. When the analysis of the retained files returns the comment list, the rest of
  the run is: nothing at all when the list is empty, and otherwise exactly one
  review-creation call carrying the whole list with the event \<^verbatim>\<open>COMMENT\<close>; the analysis
  itself makes no review-creation call. Over a whole run, whatever the environment, the
  review-creation calls are none, or a single one with a non-empty comment list and the
  event \<^verbatim>\<open>COMMENT\<close>.
\<close>

theorem review_published_once:
  assumes "analyzeCode w (filteredDiff w (parse_diff w d)) prDetails s = (Inr comments, s')"
      and "d \<noteq> []"
  shows "main_rest w prDetails (Some d) s =
           (if comments = [] then (Inr (), s')
            else (octokit_createReview w (calls s')
                    (CreateReview (owner prDetails) (repo prDetails) (pull_number prDetails)
                       comments ''COMMENT''),
                  s'\<lparr>calls := calls s'
                     @ [CreateReview (owner prDetails) (repo prDetails) (pull_number prDetails)
                          comments ''COMMENT'']\<rparr>))
         \<and> filter is_review (calls s') = filter is_review (calls s)
         \<and> (filter is_review (calls (snd (run w))) = []
            \<or> (\<exists>owner' repo' pull_number' published. published \<noteq> []
                 \<and> filter is_review (calls (snd (run w)))
                     = [CreateReview owner' repo' pull_number' published ''COMMENT'']))"
proof (intro conjI)
  show "main_rest w prDetails (Some d) s =
           (if comments = [] then (Inr (), s')
            else (octokit_createReview w (calls s')
                    (CreateReview (owner prDetails) (repo prDetails) (pull_number prDetails)
                       comments ''COMMENT''),
                  s'\<lparr>calls := calls s'
                     @ [CreateReview (owner prDetails) (repo prDetails) (pull_number prDetails)
                          comments ''COMMENT'']\<rparr>))"
    using assms by (rule main_rest_publish)
  show "filter is_review (calls s') = filter is_review (calls s)"
    using analyzeFiles_reviews [of w prDetails "filteredDiff w (parse_diff w d)" "[]" s] assms(1)
    by (simp add: analyzeCode_def)
  have "calls (snd (run w)) = calls (snd (main w initial_state))"
    by (cases "main w initial_state" rule: prod.exhaust)
       (auto simp: run_def top_level_def log_error_def split: sum.splits)
  then show "filter is_review (calls (snd (run w))) = []
            \<or> (\<exists>owner' repo' pull_number' published. published \<noteq> []
                 \<and> filter is_review (calls (snd (run w)))
                     = [CreateReview owner' repo' pull_number' published ''COMMENT''])"
    using main_reviews [of w initial_state] by (simp add: initial_state_def)
qed

theorem review_published_once_witness:
  "main_rest (example_world ''opened'' (Inr (example_completion example_reply)) [example_file])
      example_pr (Some ''diff --git'')
      \<lparr>calls = [PullsGet ''octo'' ''demo'' 7, PullsGetDiff ''octo'' ''demo'' 7], console = []\<rparr>
    = (Inr (),
       \<lparr>calls = [PullsGet ''octo'' ''demo'' 7, PullsGetDiff ''octo'' ''demo'' 7,
                 completion_request
                   (example_world ''opened'' (Inr (example_completion example_reply)) [example_file])
                   (createPrompts example_file example_chunk example_pr),
                 CreateReview ''octo'' ''demo'' 7 [example_comment] ''COMMENT''],
        console = []\<rparr>)
   \<and> main_rest (example_world ''opened'' (Inr (example_completion example_reply)) [])
      example_pr (Some ''diff --git'')
      \<lparr>calls = [PullsGet ''octo'' ''demo'' 7, PullsGetDiff ''octo'' ''demo'' 7], console = []\<rparr>
    = (Inr (),
       \<lparr>calls = [PullsGet ''octo'' ''demo'' 7, PullsGetDiff ''octo'' ''demo'' 7], console = []\<rparr>)"
proof -
  let ?w = "example_world ''opened'' (Inr (example_completion example_reply)) [example_file]"
  let ?v = "example_world ''opened'' (Inr (example_completion example_reply)) []"
  let ?s = "\<lparr>calls = [PullsGet ''octo'' ''demo'' 7, PullsGetDiff ''octo'' ''demo'' 7], console = []\<rparr>"
  let ?s' = "?s\<lparr>calls := calls ?s
               @ [completion_request ?w (createPrompts example_file example_chunk example_pr)]\<rparr>"
  have d: "''diff --git'' \<noteq> []"
    by simp
  have pw: "parse_diff ?w ''diff --git'' = [example_file]"
    by (simp add: example_world_def)
  have a: "analyzeCode ?w (filteredDiff ?w (parse_diff ?w ''diff --git'')) example_pr ?s
             = (Inr [example_comment], ?s')"
    by (simp only: pw example_filteredDiff example_analyzeCode)
  have pv: "filteredDiff ?v (parse_diff ?v ''diff --git'') = []"
    by (simp add: example_world_def filteredDiff_def)
  have b: "analyzeCode ?v (filteredDiff ?v (parse_diff ?v ''diff --git'')) example_pr ?s
             = (Inr [], ?s)"
    by (simp add: pv analyzeCode_def)
  have nonempty: "[example_comment] \<noteq> []"
    by simp
  have published: "main_rest ?w example_pr (Some ''diff --git'') ?s =
      (Inr (), ?s'\<lparr>calls := calls ?s' @ [CreateReview ''octo'' ''demo'' 7 [example_comment] ''COMMENT'']\<rparr>)"
    using review_published_once [OF a d] nonempty
    by (simp add: example_pr_def) (simp add: example_world_def)
  have silent: "main_rest ?v example_pr (Some ''diff --git'') ?s = (Inr (), ?s)"
    using review_published_once [OF b d] by simp
  from published silent show ?thesis
    by simp
qed


end
